theory Spec2Isabelle
  imports Complex_Main "HOL-Library.Sublist"
begin

section \<open>Data model\<close>

text \<open>
  The embedding follows \<^verbatim>\<open>TradeCalculator\<close> (the FIFO matcher, the P&L calculator and the
  summary), \<^verbatim>\<open>TradleApp.mergeTradesWithDatabase\<close> / \<^verbatim>\<open>extractTradeOrderIds\<close> and
  \<^verbatim>\<open>FirebaseSync.pullTradeDatabase\<close>.

  Conventions of the embedding:
  \<^item> a JavaScript number that holds a price or an amount of money is a \<open>real\<close>; quantities
    and millisecond timestamps are \<open>int\<close>. Rounding of IEEE doubles and \<open>NaN\<close> are outside the
    model; every theorem that goes through a division states that the divisor is not zero;
  \<^item> a field that the CSV parser fills with a number or \<open>null\<close> is an \<open>option\<close>
    (\<open>None\<close> is \<open>null\<close>); a \<open>Date\<close> is its epoch time in milliseconds;
  \<^item> a string field that the code only ever tests for truthiness uses the empty string
    for every falsy value (\<open>undefined\<close>, \<open>null\<close>, \<open>''\<close>);
  \<^item> object spreads copy every field; fields that none of the embedded functions reads
    (\<open>type\<close>, \<open>limitPrice\<close>, \<open>stopPrice\<close>, \<open>closingTime\<close>, \<open>levelId\<close>, the display strings
    built by \<open>formatDateTime\<close> and \<open>calculateDuration\<close>) are left out of the records;
  \<^item> symbols are assumed not to name members of \<open>Object.prototype\<close>;
  \<^item> a field keeps the name it has in the source unless that name is taken: then it carries
    the name of its object as a prefix (\<open>lot_qty\<close> for \<open>lot.qty\<close>, \<open>trade_side\<close> for
    \<open>trade.side\<close>, \<open>db_id\<close> for the \<open>id\<close> of a stored trade).
\<close>

text \<open>
  The \<open>commission\<close> field of an order is read through
  \<^verbatim>\<open>parseFloat(order.commission) || 0\<close> and tested with \<^verbatim>\<open>!== undefined\<close>.
  \<open>CommUndefined\<close> is a missing field, \<open>CommBlank\<close> any value that \<open>parseFloat\<close> maps to
  \<open>NaN\<close> (the blank string of a paper-trading export), \<open>CommNum r\<close> any value that
  \<open>parseFloat\<close> maps to \<open>r\<close>.
\<close>

datatype commission_field = CommUndefined | CommBlank | CommNum real

record js_order =
  symbol :: string
  side :: string
  qty :: int
  fillPrice :: "real option"
  status :: string
  commission :: commission_field
  placingTime :: "int option"
  orderId :: string
  leverage :: string
  margin :: string
  broker :: string
  originalQty :: "int option"

text \<open>An open lot of the position tracker: \<^verbatim>\<open>{ qty, price, order }\<close>.\<close>

record lot =
  lot_qty :: int
  lot_price :: "real option"
  lot_order :: js_order

text \<open>The object returned by \<^verbatim>\<open>createTradeObject\<close>.\<close>

record trade =
  trade_id :: string
  entryOrder :: js_order
  exitOrder :: js_order
  entryPrice :: "real option"
  exitPrice :: "real option"
  quantity :: int
  entryTime :: "int option"
  exitTime :: "int option"
  contract :: string
  trade_side :: string
  trade_margin :: real
  trade_leverage :: string
  trade_broker :: string

section \<open>String helpers\<close>

definition isUpper :: "char \<Rightarrow> bool" where
  "isUpper c = (65 \<le> (of_char c :: nat) \<and> (of_char c :: nat) \<le> 90)"

definition isDigit :: "char \<Rightarrow> bool" where
  "isDigit c = (48 \<le> (of_char c :: nat) \<and> (of_char c :: nat) \<le> 57)"

definition isLower :: "char \<Rightarrow> bool" where
  "isLower c = (97 \<le> (of_char c :: nat) \<and> (of_char c :: nat) \<le> 122)"

text \<open>\<^verbatim>\<open>String.prototype.toLowerCase\<close> on ASCII text.\<close>

definition toLowerChar :: "char \<Rightarrow> char" where
  "toLowerChar c = (if isUpper c then char_of (of_char c + (32::nat)) else c)"

definition toLowerCase :: "string \<Rightarrow> string" where
  "toLowerCase s = map toLowerChar s"

text \<open>
  \<^verbatim>\<open>s.replace(/^[A-Z0-9_]+:/, '')\<close>: the class does not contain the colon, so the only
  possible match is the maximal leading run of class characters followed by a colon.
\<close>

definition isPrefixChar :: "char \<Rightarrow> bool" where
  "isPrefixChar c = (isUpper c \<or> isDigit c \<or> c = CHR ''_'')"

definition stripExchangePrefix :: "string \<Rightarrow> string" where
  "stripExchangePrefix s =
     (case dropWhile isPrefixChar s of
        [] \<Rightarrow> s
      | c # rest \<Rightarrow> if takeWhile isPrefixChar s \<noteq> [] \<and> c = CHR '':'' then rest else s)"

definition digitVal :: "char \<Rightarrow> nat" where
  "digitVal c = of_char c - 48"

definition digitsToNat :: "string \<Rightarrow> nat" where
  "digitsToNat ds = foldl (\<lambda>n c. 10 * n + digitVal c) 0 ds"

text \<open>
  \<^verbatim>\<open>parseFloat\<close> on a string that holds only digits and dots (what
  \<^verbatim>\<open>replace(/[^0-9.]/g, '')\<close> leaves): the integer digits, then at most one dot with its
  fraction digits; \<open>None\<close> is \<open>NaN\<close> (no digit at all).
\<close>

definition parseFloatDigits :: "string \<Rightarrow> real option" where
  "parseFloatDigits s =
     (let ip = takeWhile isDigit s;
          rest = dropWhile isDigit s;
          fp = (case rest of [] \<Rightarrow> [] | c # r \<Rightarrow> if c = CHR ''.'' then takeWhile isDigit r else [])
      in if ip = [] \<and> fp = [] then None
         else Some (real (digitsToNat ip) + real (digitsToNat fp) / 10 ^ length fp))"

text \<open>\<^verbatim>\<open>parseMargin\<close>, the local helper of \<^verbatim>\<open>createTradeObject\<close>.\<close>

definition parseMargin :: "string \<Rightarrow> real" where
  "parseMargin m =
     (if m = [] then 0
      else case parseFloatDigits (filter (\<lambda>c. isDigit c \<or> c = CHR ''.'') m) of
             None \<Rightarrow> 0 | Some v \<Rightarrow> v)"

text \<open>\<^verbatim>\<open>a || b\<close> on strings.\<close>

definition orElse :: "string \<Rightarrow> string \<Rightarrow> string" where
  "orElse a b = (if a \<noteq> [] then a else b)"

section \<open>Trade matcher\<close>

text \<open>\<^verbatim>\<open>createTradeObject(order1, order2)\<close>.\<close>

definition createTradeObject :: "js_order \<Rightarrow> js_order \<Rightarrow> trade" where
  "createTradeObject order1 order2 =
     \<lparr> trade_id = ''trade_'' @ orderId order1 @ ''_'' @ orderId order2,
       entryOrder = order1,
       exitOrder = order2,
       entryPrice = fillPrice order1,
       exitPrice = fillPrice order2,
       quantity = qty order1,
       entryTime = placingTime order1,
       exitTime = placingTime order2,
       contract = orElse (stripExchangePrefix (symbol order1)) (orElse (symbol order1) ''Unknown''),
       trade_side = (if toLowerCase (side order1) = ''buy'' then ''LONG'' else ''SHORT''),
       trade_margin = parseMargin (orElse (margin order1) (margin order2)),
       trade_leverage = orElse (leverage order1) (leverage order2),
       trade_broker = orElse (broker order1) (broker order2) \<rparr>"

text \<open>
  The filter of \<^verbatim>\<open>matchTrades\<close>: \<^verbatim>\<open>order.fillPrice && order.placingTime\<close>. A number is
  truthy when it is not zero, \<open>null\<close> is falsy, a \<open>Date\<close> is truthy.
\<close>

definition isValidOrder :: "js_order \<Rightarrow> bool" where
  "isValidOrder ord = ((case fillPrice ord of None \<Rightarrow> False | Some p \<Rightarrow> p \<noteq> 0) \<and> placingTime ord \<noteq> None)"

text \<open>\<open>ToNumber\<close>: \<open>null\<close> converts to \<open>0\<close>.\<close>

definition numOf :: "real option \<Rightarrow> real" where
  "numOf x = (case x of None \<Rightarrow> 0 | Some v \<Rightarrow> v)"

definition timeOf :: "int option \<Rightarrow> int" where
  "timeOf x = (case x of None \<Rightarrow> 0 | Some v \<Rightarrow> v)"

text \<open>
  The comparator \<^verbatim>\<open>(a.placingTime - b.placingTime) || (a.fillPrice - b.fillPrice)\<close>.
\<close>

definition compareOrders :: "js_order \<Rightarrow> js_order \<Rightarrow> real" where
  "compareOrders a b =
     (let d = real_of_int (timeOf (placingTime a) - timeOf (placingTime b))
      in if d \<noteq> 0 then d else numOf (fillPrice a) - numOf (fillPrice b))"

text \<open>
  \<^verbatim>\<open>Array.prototype.sort\<close> is stable and the comparator is consistent, so the result is
  the one of a stable insertion sort.
\<close>

fun insertOrder :: "js_order \<Rightarrow> js_order list \<Rightarrow> js_order list" where
  "insertOrder x [] = [x]"
| "insertOrder x (y # ys) = (if compareOrders x y \<le> 0 then x # y # ys else y # insertOrder x ys)"

definition sortOrders :: "js_order list \<Rightarrow> js_order list" where
  "sortOrders xs = foldr insertOrder xs []"

definition validOrders :: "js_order list \<Rightarrow> js_order list" where
  "validOrders orders = sortOrders (filter isValidOrder orders)"

text \<open>
  The \<^verbatim>\<open>while (remainingQty > 0 && pos.length > 0)\<close> loop, on the triple of its variables:
  the remaining quantity, the queue of the symbol and the trades emitted so far.
\<close>

function closeLots :: "js_order \<Rightarrow> int \<Rightarrow> lot list \<Rightarrow> trade list \<Rightarrow> int \<times> lot list \<times> trade list" where
  "closeLots ord remainingQty pos trades =
     (if remainingQty > 0 \<and> pos \<noteq> [] then
        (let l = hd pos;
             closeQty = min remainingQty (lot_qty l);
             entryOrderCopy = (lot_order l)\<lparr> originalQty := Some (qty (lot_order l)), qty := closeQty \<rparr>;
             exitOrderCopy = ord\<lparr> originalQty := Some (qty ord), qty := closeQty \<rparr>;
             t = createTradeObject entryOrderCopy exitOrderCopy;
             l' = l\<lparr> lot_qty := lot_qty l - closeQty \<rparr>
         in closeLots ord (remainingQty - closeQty)
              (if lot_qty l' \<le> 0 then tl pos else l' # tl pos) (trades @ [t]))
      else (remainingQty, pos, trades))"
  by pat_completeness auto
termination
  by (relation "measure (\<lambda>(ord, r, pos, trades). 2 * length pos + (if r > 0 then 1 else 0))")
     (auto simp: Let_def min_def split: if_splits)

declare closeLots.simps [simp del]

text \<open>The state of the main loop: the per-symbol queues and the trades.\<close>

type_synonym positions = "string \<rightharpoonup> lot list"

definition getPos :: "positions \<Rightarrow> string \<Rightarrow> lot list" where
  "getPos positions sy = (case positions sy of None \<Rightarrow> [] | Some pos \<Rightarrow> pos)"

text \<open>One iteration of \<^verbatim>\<open>for (const order of validOrders)\<close>.\<close>

definition matchStep :: "positions \<times> trade list \<Rightarrow> js_order \<Rightarrow> positions \<times> trade list" where
  "matchStep st ord =
     (let positions = fst st; trades = snd st in
      if status ord \<noteq> ''Filled'' then st
      else
        let sy = symbol ord; pos = getPos positions sy in
        if pos = [] then
          (positions(sy \<mapsto> [\<lparr> lot_qty = qty ord, lot_price = fillPrice ord, lot_order = ord \<rparr>]), trades)
        else if toLowerCase (side (lot_order (hd pos))) = toLowerCase (side ord) then
          (positions(sy \<mapsto> pos @ [\<lparr> lot_qty = qty ord, lot_price = fillPrice ord, lot_order = ord \<rparr>]), trades)
        else
          (case closeLots ord (qty ord) pos trades of
             (remainingQty, pos', trades') \<Rightarrow>
               (positions(sy \<mapsto>
                  (if remainingQty > 0
                   then pos' @ [\<lparr> lot_qty = remainingQty, lot_price = fillPrice ord, lot_order = ord \<rparr>]
                   else pos')),
                trades')))"

definition matchLoop :: "positions \<times> trade list \<Rightarrow> js_order list \<Rightarrow> positions \<times> trade list" where
  "matchLoop st ords = foldl matchStep st ords"

definition matchState :: "js_order list \<Rightarrow> positions \<times> trade list" where
  "matchState orders = matchLoop (Map.empty, []) (validOrders orders)"

text \<open>\<^verbatim>\<open>matchTrades(orders)\<close> returns the trades; the queues are only logged.\<close>

definition matchTrades :: "js_order list \<Rightarrow> trade list" where
  "matchTrades orders = snd (matchState orders)"

text \<open>The quantity logged as unclosed for a symbol: \<^verbatim>\<open>pos.reduce((s, l) => s + l.qty, 0)\<close>.\<close>

definition unclosed :: "positions \<Rightarrow> string \<Rightarrow> int" where
  "unclosed positions sy = sum_list (map lot_qty (getPos positions sy))"

section \<open>Contract registry\<close>

record contract_spec =
  spec_multiplier :: real
  spec_commission :: real
  spec_name :: string

text \<open>\<^verbatim>\<open>this.CONTRACT_SPECS\<close>, in the order of the source.\<close>

definition CONTRACT_SPECS :: "(string \<times> contract_spec) list" where
  "CONTRACT_SPECS =
     [
      (''ES1!'', \<lparr> spec_multiplier = 50, spec_commission = 2.5, spec_name = ''E-mini S&P 500'' \<rparr>),
      (''MES1!'', \<lparr> spec_multiplier = 5, spec_commission = 0.62, spec_name = ''Micro E-mini S&P 500'' \<rparr>),
      (''NQ1!'', \<lparr> spec_multiplier = 20, spec_commission = 2.5, spec_name = ''E-mini Nasdaq-100'' \<rparr>),
      (''MNQ1!'', \<lparr> spec_multiplier = 2, spec_commission = 0.62, spec_name = ''Micro E-mini Nasdaq-100'' \<rparr>),
      (''YM1!'', \<lparr> spec_multiplier = 5, spec_commission = 2.5, spec_name = ''E-mini Dow'' \<rparr>),
      (''MYM1!'', \<lparr> spec_multiplier = 0.5, spec_commission = 0.62, spec_name = ''Micro E-mini Dow'' \<rparr>),
      (''RTY1!'', \<lparr> spec_multiplier = 50, spec_commission = 2.5, spec_name = ''E-mini Russell 2000'' \<rparr>),
      (''M2K1!'', \<lparr> spec_multiplier = 5, spec_commission = 0.62, spec_name = ''Micro E-mini Russell 2000'' \<rparr>),
      (''CL1!'', \<lparr> spec_multiplier = 1000, spec_commission = 2.5, spec_name = ''Crude Oil'' \<rparr>),
      (''MCL1!'', \<lparr> spec_multiplier = 100, spec_commission = 0.62, spec_name = ''Micro Crude Oil'' \<rparr>),
      (''GC1!'', \<lparr> spec_multiplier = 100, spec_commission = 2.5, spec_name = ''Gold'' \<rparr>),
      (''MGC1!'', \<lparr> spec_multiplier = 10, spec_commission = 0.62, spec_name = ''Micro Gold'' \<rparr>),
      (''SI1!'', \<lparr> spec_multiplier = 5000, spec_commission = 2.5, spec_name = ''Silver'' \<rparr>),
      (''NG1!'', \<lparr> spec_multiplier = 10000, spec_commission = 2.5, spec_name = ''Natural Gas'' \<rparr>),
      (''ZB1!'', \<lparr> spec_multiplier = 1000, spec_commission = 2.5, spec_name = ''30-Year T-Bond'' \<rparr>),
      (''ZN1!'', \<lparr> spec_multiplier = 1000, spec_commission = 2.5, spec_name = ''10-Year T-Note'' \<rparr>),
      (''6E1!'', \<lparr> spec_multiplier = 125000, spec_commission = 2.5, spec_name = ''Euro FX'' \<rparr>),
      (''6J1!'', \<lparr> spec_multiplier = 12500000, spec_commission = 2.5, spec_name = ''Japanese Yen'' \<rparr>),
      (''ZC1!'', \<lparr> spec_multiplier = 50, spec_commission = 2.5, spec_name = ''Corn'' \<rparr>),
      (''ZW1!'', \<lparr> spec_multiplier = 50, spec_commission = 2.5, spec_name = ''Wheat'' \<rparr>),
      (''ZS1!'', \<lparr> spec_multiplier = 50, spec_commission = 2.5, spec_name = ''Soybeans'' \<rparr>),
      (''HG1!'', \<lparr> spec_multiplier = 25000, spec_commission = 2.5, spec_name = ''Copper'' \<rparr>),
      (''PL1!'', \<lparr> spec_multiplier = 50, spec_commission = 2.5, spec_name = ''Platinum'' \<rparr>),
      (''6B1!'', \<lparr> spec_multiplier = 62500, spec_commission = 2.5, spec_name = ''British Pound'' \<rparr>),
      (''6C1!'', \<lparr> spec_multiplier = 100000, spec_commission = 2.5, spec_name = ''Canadian Dollar'' \<rparr>),
      (''6A1!'', \<lparr> spec_multiplier = 100000, spec_commission = 2.5, spec_name = ''Australian Dollar'' \<rparr>),
      (''6S1!'', \<lparr> spec_multiplier = 125000, spec_commission = 2.5, spec_name = ''Swiss Franc'' \<rparr>),
      (''6N1!'', \<lparr> spec_multiplier = 100000, spec_commission = 2.5, spec_name = ''New Zealand Dollar'' \<rparr>),
      (''6M1!'', \<lparr> spec_multiplier = 500000, spec_commission = 2.5, spec_name = ''Mexican Peso'' \<rparr>),
      (''SPXUSD'', \<lparr> spec_multiplier = 1, spec_commission = 0, spec_name = ''S&P 500 CFD'' \<rparr>),
      (''NAS100'', \<lparr> spec_multiplier = 1, spec_commission = 0, spec_name = ''Nasdaq 100 CFD'' \<rparr>),
      (''US30'', \<lparr> spec_multiplier = 1, spec_commission = 0, spec_name = ''Dow Jones CFD'' \<rparr>),
      (''US2000'', \<lparr> spec_multiplier = 1, spec_commission = 0, spec_name = ''Russell 2000 CFD'' \<rparr>),
      (''GER40'', \<lparr> spec_multiplier = 1, spec_commission = 0, spec_name = ''DAX 40 CFD'' \<rparr>),
      (''UK100'', \<lparr> spec_multiplier = 1, spec_commission = 0, spec_name = ''FTSE 100 CFD'' \<rparr>),
      (''FRA40'', \<lparr> spec_multiplier = 1, spec_commission = 0, spec_name = ''CAC 40 CFD'' \<rparr>),
      (''JPN225'', \<lparr> spec_multiplier = 1, spec_commission = 0, spec_name = ''Nikkei 225 CFD'' \<rparr>),
      (''HK50'', \<lparr> spec_multiplier = 1, spec_commission = 0, spec_name = ''Hang Seng CFD'' \<rparr>),
      (''AUS200'', \<lparr> spec_multiplier = 1, spec_commission = 0, spec_name = ''ASX 200 CFD'' \<rparr>),
      (''XAUUSD'', \<lparr> spec_multiplier = 1, spec_commission = 0, spec_name = ''Gold CFD'' \<rparr>),
      (''XAGUSD'', \<lparr> spec_multiplier = 1, spec_commission = 0, spec_name = ''Silver CFD'' \<rparr>),
      (''XPTUSD'', \<lparr> spec_multiplier = 1, spec_commission = 0, spec_name = ''Platinum CFD'' \<rparr>),
      (''USOIL'', \<lparr> spec_multiplier = 1, spec_commission = 0, spec_name = ''US Crude Oil CFD'' \<rparr>),
      (''UKOIL'', \<lparr> spec_multiplier = 1, spec_commission = 0, spec_name = ''Brent Oil CFD'' \<rparr>),
      (''NATGAS'', \<lparr> spec_multiplier = 1, spec_commission = 0, spec_name = ''Natural Gas CFD'' \<rparr>),
      (''EURUSD'', \<lparr> spec_multiplier = 1, spec_commission = 0, spec_name = ''EUR/USD'' \<rparr>),
      (''GBPUSD'', \<lparr> spec_multiplier = 1, spec_commission = 0, spec_name = ''GBP/USD'' \<rparr>),
      (''USDJPY'', \<lparr> spec_multiplier = 1, spec_commission = 0, spec_name = ''USD/JPY'' \<rparr>),
      (''USDCHF'', \<lparr> spec_multiplier = 1, spec_commission = 0, spec_name = ''USD/CHF'' \<rparr>),
      (''AUDUSD'', \<lparr> spec_multiplier = 1, spec_commission = 0, spec_name = ''AUD/USD'' \<rparr>),
      (''NZDUSD'', \<lparr> spec_multiplier = 1, spec_commission = 0, spec_name = ''NZD/USD'' \<rparr>),
      (''USDCAD'', \<lparr> spec_multiplier = 1, spec_commission = 0, spec_name = ''USD/CAD'' \<rparr>),
      (''USDEUR'', \<lparr> spec_multiplier = 1, spec_commission = 0, spec_name = ''USD/EUR'' \<rparr>),
      (''USDGBP'', \<lparr> spec_multiplier = 1, spec_commission = 0, spec_name = ''USD/GBP'' \<rparr>),
      (''JPYUSD'', \<lparr> spec_multiplier = 1, spec_commission = 0, spec_name = ''JPY/USD'' \<rparr>),
      (''EURGBP'', \<lparr> spec_multiplier = 1, spec_commission = 0, spec_name = ''EUR/GBP'' \<rparr>),
      (''EURJPY'', \<lparr> spec_multiplier = 1, spec_commission = 0, spec_name = ''EUR/JPY'' \<rparr>),
      (''EURCAD'', \<lparr> spec_multiplier = 1, spec_commission = 0, spec_name = ''EUR/CAD'' \<rparr>),
      (''EURCHF'', \<lparr> spec_multiplier = 1, spec_commission = 0, spec_name = ''EUR/CHF'' \<rparr>),
      (''EURAUD'', \<lparr> spec_multiplier = 1, spec_commission = 0, spec_name = ''EUR/AUD'' \<rparr>),
      (''EURNZD'', \<lparr> spec_multiplier = 1, spec_commission = 0, spec_name = ''EUR/NZD'' \<rparr>),
      (''GBPJPY'', \<lparr> spec_multiplier = 1, spec_commission = 0, spec_name = ''GBP/JPY'' \<rparr>),
      (''GBPCAD'', \<lparr> spec_multiplier = 1, spec_commission = 0, spec_name = ''GBP/CAD'' \<rparr>),
      (''GBPCHF'', \<lparr> spec_multiplier = 1, spec_commission = 0, spec_name = ''GBP/CHF'' \<rparr>),
      (''GBPAUD'', \<lparr> spec_multiplier = 1, spec_commission = 0, spec_name = ''GBP/AUD'' \<rparr>),
      (''GBPNZD'', \<lparr> spec_multiplier = 1, spec_commission = 0, spec_name = ''GBP/NZD'' \<rparr>),
      (''AUDJPY'', \<lparr> spec_multiplier = 1, spec_commission = 0, spec_name = ''AUD/JPY'' \<rparr>),
      (''AUDCAD'', \<lparr> spec_multiplier = 1, spec_commission = 0, spec_name = ''AUD/CAD'' \<rparr>),
      (''AUDCHF'', \<lparr> spec_multiplier = 1, spec_commission = 0, spec_name = ''AUD/CHF'' \<rparr>),
      (''AUDNZD'', \<lparr> spec_multiplier = 1, spec_commission = 0, spec_name = ''AUD/NZD'' \<rparr>),
      (''CADJPY'', \<lparr> spec_multiplier = 1, spec_commission = 0, spec_name = ''CAD/JPY'' \<rparr>),
      (''CHFJPY'', \<lparr> spec_multiplier = 1, spec_commission = 0, spec_name = ''CHF/JPY'' \<rparr>),
      (''NZDJPY'', \<lparr> spec_multiplier = 1, spec_commission = 0, spec_name = ''NZD/JPY'' \<rparr>),
      (''NZDCAD'', \<lparr> spec_multiplier = 1, spec_commission = 0, spec_name = ''NZD/CAD'' \<rparr>),
      (''NZDCHF'', \<lparr> spec_multiplier = 1, spec_commission = 0, spec_name = ''NZD/CHF'' \<rparr>),
      (''BTCUSD'', \<lparr> spec_multiplier = 1, spec_commission = 0, spec_name = ''Bitcoin CFD'' \<rparr>),
      (''ETHUSD'', \<lparr> spec_multiplier = 1, spec_commission = 0, spec_name = ''Ethereum CFD'' \<rparr>)
     ]"

definition DEFAULT_SPECS :: contract_spec where
  "DEFAULT_SPECS = \<lparr> spec_multiplier = 1, spec_commission = 0, spec_name = ''Unknown'' \<rparr>"

text \<open>\<^verbatim>\<open>getContractSpecs(symbolRaw)\<close>.\<close>

definition getContractSpecs :: "string \<Rightarrow> contract_spec" where
  "getContractSpecs symbolRaw =
     (if symbolRaw = [] then DEFAULT_SPECS
      else case map_of CONTRACT_SPECS (stripExchangePrefix symbolRaw) of
             None \<Rightarrow> DEFAULT_SPECS
           | Some specs \<Rightarrow> specs)"

section \<open>P&L calculator\<close>

text \<open>The object returned by \<^verbatim>\<open>calculateTrade\<close>: the trade with the calculated fields.\<close>

record priced_trade = trade +
  pointDifference :: real
  grossProfit :: real
  totalCommission :: real
  netProfit :: real
  returnValue :: int
  trade_status :: string
  isWin :: bool
  entry :: "real option"
  exit :: "real option"
  return' :: int
  spec_rate :: real
  currency :: string
  images :: string
  trade_notes :: string
  tags :: string
  entryOrderId :: string
  exitOrderId :: string

text \<open>\<^verbatim>\<open>parseFloat(order.commission) || 0\<close>.\<close>

definition commNum :: "commission_field \<Rightarrow> real" where
  "commNum c = (case c of CommNum r \<Rightarrow> r | _ \<Rightarrow> 0)"

text \<open>\<^verbatim>\<open>order.originalQty || quantity\<close>.\<close>

definition qtyOr :: "int option \<Rightarrow> int \<Rightarrow> int" where
  "qtyOr oq q = (case oq of None \<Rightarrow> q | Some v \<Rightarrow> if v \<noteq> 0 then v else q)"

text \<open>\<^verbatim>\<open>String(leverage).match(/(\d+)/)\<close>: the first run of digits.\<close>

definition firstDigits :: "string \<Rightarrow> string option" where
  "firstDigits s =
     (let r = dropWhile (\<lambda>c. \<not> isDigit c) s in if r = [] then None else Some (takeWhile isDigit r))"

text \<open>The effective multiplier of \<^verbatim>\<open>calculateTrade\<close>.\<close>

definition effectiveMultiplier :: "trade \<Rightarrow> real" where
  "effectiveMultiplier t =
     (let specs = getContractSpecs (contract t);
          ePrice = numOf (entryPrice t)
      in if trade_margin t > 0 \<and> trade_leverage t \<noteq> [] then
           (case firstDigits (trade_leverage t) of
              None \<Rightarrow> spec_multiplier specs
            | Some ds \<Rightarrow>
                let levVal = real (digitsToNat ds);
                    refQty = real_of_int (qtyOr (originalQty (entryOrder t)) (quantity t))
                in if levVal > 0 \<and> refQty > 0 \<and> ePrice > 0 then
                     (let derived = (trade_margin t * levVal) / (refQty * ePrice);
                          specMult = (if spec_multiplier specs \<noteq> 0 then spec_multiplier specs else 1)
                      in if \<bar>derived - specMult\<bar> / specMult > 0.1 then derived
                         else spec_multiplier specs)
                   else spec_multiplier specs)
         else spec_multiplier specs)"

text \<open>The commission of \<^verbatim>\<open>calculateTrade\<close>.\<close>

definition tradeCommission :: "trade \<Rightarrow> real" where
  "tradeCommission t =
     (let specs = getContractSpecs (contract t);
          entryCommNum = commNum (commission (entryOrder t));
          exitCommNum = commNum (commission (exitOrder t))
      in if commission (entryOrder t) \<noteq> CommUndefined \<and> (entryCommNum > 0 \<or> exitCommNum > 0) then
           (let origEntryQty = qtyOr (originalQty (entryOrder t)) (quantity t);
                origExitQty = qtyOr (originalQty (exitOrder t)) (quantity t)
            in entryCommNum * (real_of_int (quantity t) / real_of_int origEntryQty)
               + exitCommNum * (real_of_int (quantity t) / real_of_int origExitQty))
         else spec_commission specs * 2 * real_of_int (quantity t))"

text \<open>\<^verbatim>\<open>Math.round\<close>: the nearest integer, halves towards plus infinity.\<close>

definition mathRound :: "real \<Rightarrow> int" where
  "mathRound x = \<lfloor>x + 1 / 2\<rfloor>"

text \<open>\<^verbatim>\<open>calculateTrade(trade)\<close>.\<close>

definition calculateTrade :: "trade \<Rightarrow> priced_trade" where
  "calculateTrade t =
     (let sideV = orElse (trade_side t) ''LONG'';
          specs = getContractSpecs (contract t);
          pointDiff = (if sideV = ''SHORT'' then numOf (entryPrice t) - numOf (exitPrice t)
                       else numOf (exitPrice t) - numOf (entryPrice t));
          gross = pointDiff * real_of_int (quantity t) * effectiveMultiplier t;
          comm = tradeCommission t;
          net = gross - comm;
          win = (net > 0)
      in trade.extend t
           (priced_trade.fields pointDiff gross comm net (mathRound net)
              (if win then ''WIN'' else ''LOSE'') win (entryPrice t) (exitPrice t) (mathRound net)
              (spec_commission specs) ''USD'' ''-'' [] []
              (orderId (entryOrder t)) (orderId (exitOrder t)))
           \<lparr> trade_side := orElse (trade_side t) ''LONG'',
             contract := orElse (contract t) (orElse (symbol (entryOrder t)) ''Unknown''),
             trade_leverage := orElse (trade_leverage t) [],
             trade_broker := orElse (trade_broker t) (orElse (broker (entryOrder t)) []) \<rparr>)"

section \<open>Summary\<close>

text \<open>A JavaScript number that may be \<^verbatim>\<open>Infinity\<close>: the profit factor.\<close>

datatype js_number = Finite real | PosInfinity

record summary =
  totalTrades :: nat
  totalProfit :: real
  totalGrossProfit :: real
  sum_totalCommission :: real
  winCount :: nat
  lossCount :: nat
  winRate :: real
  bestTrade :: real
  worstTrade :: real
  averageProfit :: real
  averageWin :: real
  averageLoss :: real
  profitFactor :: js_number
  sharpeRatio :: real
  maxDrawdown :: real
  consecutiveWins :: nat
  consecutiveLosses :: nat
  dateRange :: "(int \<times> int) option"

text \<open>\<^verbatim>\<open>getEmptySummary()\<close>.\<close>

definition getEmptySummary :: summary where
  "getEmptySummary =
     \<lparr> totalTrades = 0, totalProfit = 0, totalGrossProfit = 0, sum_totalCommission = 0,
       winCount = 0, lossCount = 0, winRate = 0, bestTrade = 0, worstTrade = 0,
       averageProfit = 0, averageWin = 0, averageLoss = 0, profitFactor = Finite 0,
       sharpeRatio = 0, maxDrawdown = 0, consecutiveWins = 0, consecutiveLosses = 0,
       dateRange = None \<rparr>"

text \<open>\<^verbatim>\<open>xs.reduce((sum, t) => sum + t.netProfit, 0)\<close>.\<close>

definition sumNet :: "priced_trade list \<Rightarrow> real" where
  "sumNet ts = foldl (\<lambda>s t. s + netProfit t) 0 ts"

text \<open>\<^verbatim>\<open>calculateProfitFactor(winningTrades, losingTrades)\<close>.\<close>

definition calculateProfitFactor :: "priced_trade list \<Rightarrow> priced_trade list \<Rightarrow> js_number" where
  "calculateProfitFactor winningTrades losingTrades =
     (let grossWin = sumNet winningTrades;
          grossLoss = \<bar>sumNet losingTrades\<bar>
      in if grossLoss > 0 then Finite (grossWin / grossLoss)
         else if grossWin > 0 then PosInfinity else Finite 0)"

text \<open>\<^verbatim>\<open>calculateSharpeRatio(profits)\<close>.\<close>

definition calculateSharpeRatio :: "real list \<Rightarrow> real" where
  "calculateSharpeRatio profits =
     (if length profits < 2 then 0
      else let mean = foldl (+) 0 profits / real (length profits);
               variance = foldl (\<lambda>s p. s + (p - mean) ^ 2) 0 profits / real (length profits);
               standardDeviation = sqrt variance
           in if standardDeviation > 0 then mean / standardDeviation else 0)"

text \<open>\<^verbatim>\<open>calculateMaxDrawdown(trades)\<close>: the loop on (runningTotal, peak, maxDrawdown).\<close>

definition drawdownStep :: "real \<times> real \<times> real \<Rightarrow> priced_trade \<Rightarrow> real \<times> real \<times> real" where
  "drawdownStep st t =
     (case st of (runningTotal, peak, maxDd) \<Rightarrow>
        let runningTotal' = runningTotal + netProfit t;
            peak' = (if runningTotal' > peak then runningTotal' else peak);
            drawdown = peak' - runningTotal'
        in (runningTotal', peak', if drawdown > maxDd then drawdown else maxDd))"

definition calculateMaxDrawdown :: "priced_trade list \<Rightarrow> real" where
  "calculateMaxDrawdown ts = snd (snd (foldl drawdownStep (0, 0, 0) ts))"

text \<open>\<^verbatim>\<open>getMaxConsecutive(trades, isWin)\<close>: the loop on (maxConsecutive, currentConsecutive).\<close>

definition consecutiveStep :: "bool \<Rightarrow> nat \<times> nat \<Rightarrow> priced_trade \<Rightarrow> nat \<times> nat" where
  "consecutiveStep w st t =
     (case st of (maxC, cur) \<Rightarrow>
        if isWin t = w then (max maxC (cur + 1), cur + 1) else (maxC, 0))"

definition getMaxConsecutive :: "priced_trade list \<Rightarrow> bool \<Rightarrow> nat" where
  "getMaxConsecutive ts w = fst (foldl (consecutiveStep w) (0, 0) ts)"

text \<open>\<^verbatim>\<open>getDateRange(trades)\<close>: the entry times that are present, sorted.\<close>

definition getDateRange :: "priced_trade list \<Rightarrow> (int \<times> int) option" where
  "getDateRange ts =
     (if ts = [] then None
      else let dates = sort (concat (map (\<lambda>t. case entryTime t of None \<Rightarrow> [] | Some d \<Rightarrow> [d]) ts))
           in if dates \<noteq> [] then Some (hd dates, last dates) else None)"

text \<open>\<^verbatim>\<open>Math.max(...xs)\<close> and \<^verbatim>\<open>Math.min(...xs)\<close> on a list that is not empty.\<close>

definition mathMax :: "real list \<Rightarrow> real" where
  "mathMax xs = foldl max (hd xs) (tl xs)"

definition mathMin :: "real list \<Rightarrow> real" where
  "mathMin xs = foldl min (hd xs) (tl xs)"

text \<open>\<^verbatim>\<open>generateSummary(trades)\<close>.\<close>

definition generateSummary :: "priced_trade list \<Rightarrow> summary" where
  "generateSummary ts =
     (if ts = [] then getEmptySummary
      else let totalP = sumNet ts;
               winningTrades = filter isWin ts;
               losingTrades = filter (\<lambda>t. \<not> isWin t) ts;
               winC = length winningTrades;
               lossC = length losingTrades;
               profits = map netProfit ts
           in \<lparr> totalTrades = length ts,
                totalProfit = totalP,
                totalGrossProfit = foldl (\<lambda>s t. s + grossProfit t) 0 ts,
                sum_totalCommission = foldl (\<lambda>s t. s + totalCommission t) 0 ts,
                winCount = winC,
                lossCount = lossC,
                winRate = real winC / real (length ts) * 100,
                bestTrade = mathMax profits,
                worstTrade = mathMin profits,
                averageProfit = totalP / real (length ts),
                averageWin = (if winC > 0 then sumNet winningTrades / real winC else 0),
                averageLoss = (if lossC > 0 then sumNet losingTrades / real lossC else 0),
                profitFactor = calculateProfitFactor winningTrades losingTrades,
                sharpeRatio = calculateSharpeRatio profits,
                maxDrawdown = calculateMaxDrawdown ts,
                consecutiveWins = getMaxConsecutive ts True,
                consecutiveLosses = getMaxConsecutive ts False,
                dateRange = getDateRange ts \<rparr>)"

text \<open>\<^verbatim>\<open>processOrders(orders)\<close>: the trades, the summary and the number of orders.\<close>

definition processOrders :: "js_order list \<Rightarrow> priced_trade list \<times> summary \<times> nat" where
  "processOrders orders =
     (let calculatedTrades = map calculateTrade (matchTrades orders)
      in (calculatedTrades, generateSummary calculatedTrades, length orders))"

section \<open>Trade store\<close>

text \<open>
  A trade as the store sees it: the fields that \<^verbatim>\<open>extractTradeOrderIds\<close>,
  \<^verbatim>\<open>mergeTradesWithDatabase\<close> and \<^verbatim>\<open>pullTradeDatabase\<close> read or write. A string field that is
  missing is the empty string; \<open>None\<close> is a missing field otherwise.
\<close>

record db_trade =
  db_id :: string
  db_entryOrderId :: string
  db_exitOrderId :: string
  db_entryOrder :: "js_order option"
  db_exitOrder :: "js_order option"
  db_entryTime :: "int option"
  db_exitTime :: "int option"
  db_entryPrice :: "real option"
  db_exitPrice :: "real option"
  db_contract :: string
  db_symbol :: string
  db_allOrderIds :: "string list option"

text \<open>The priced trade that \<^verbatim>\<open>processOrders\<close> hands to the merge.\<close>

definition toDbTrade :: "priced_trade \<Rightarrow> db_trade" where
  "toDbTrade t =
     \<lparr> db_id = trade_id t, db_entryOrderId = entryOrderId t, db_exitOrderId = exitOrderId t,
       db_entryOrder = Some (entryOrder t), db_exitOrder = Some (exitOrder t),
       db_entryTime = entryTime t, db_exitTime = exitTime t,
       db_entryPrice = entryPrice t, db_exitPrice = exitPrice t,
       db_contract = contract t, db_symbol = [], db_allOrderIds = None \<rparr>"

record tradeDatabase =
  trades :: "db_trade list"
  orderIds :: "string set"
  lastUpdated :: "string option"

text \<open>\<^verbatim>\<open>s.startsWith(p)\<close>, \<^verbatim>\<open>s.includes(p)\<close> and \<^verbatim>\<open>s.split(c)\<close>.\<close>

definition startsWith :: "string \<Rightarrow> string \<Rightarrow> bool" where
  "startsWith s p = (take (length p) s = p)"

fun includesStr :: "string \<Rightarrow> string \<Rightarrow> bool" where
  "includesStr [] p = (p = [])"
| "includesStr (c # cs) p = (startsWith (c # cs) p \<or> includesStr cs p)"

fun splitOn :: "char \<Rightarrow> string \<Rightarrow> string list" where
  "splitOn d [] = [[]]"
| "splitOn d (c # cs) =
     (if c = d then [] # splitOn d cs
      else case splitOn d cs of [] \<Rightarrow> [[c]] | p # ps \<Rightarrow> (c # p) # ps)"

text \<open>\<^verbatim>\<open>[...new Set(xs)]\<close>: the first occurrence of every element, in order.\<close>

fun uniq :: "string list \<Rightarrow> string list" where
  "uniq [] = []"
| "uniq (x # xs) = x # filter (\<lambda>y. y \<noteq> x) (uniq xs)"

text \<open>The truthy members of a list of strings.\<close>

definition truthy :: "string list \<Rightarrow> string list" where
  "truthy xs = filter (\<lambda>x. x \<noteq> []) xs"

definition nestedOrderId :: "js_order option \<Rightarrow> string" where
  "nestedOrderId ord = (case ord of None \<Rightarrow> [] | Some x \<Rightarrow> orderId x)"

text \<open>
  The last resort of \<^verbatim>\<open>extractTradeOrderIds\<close>: an order matches when it is within 60 seconds
  and 0.01 of the entry, or else of the exit. A comparison with a missing time or price is
  false.
\<close>

definition near :: "js_order \<Rightarrow> int option \<Rightarrow> real option \<Rightarrow> bool" where
  "near ord t p =
     (case (placingTime ord, t, fillPrice ord, p) of
        (Some ot, Some tt, Some pr, Some tp) \<Rightarrow> \<bar>ot - tt\<bar> < 60000 \<and> \<bar>pr - tp\<bar> < 0.01
      | _ \<Rightarrow> False)"

definition fuzzyIds :: "db_trade \<Rightarrow> js_order list \<Rightarrow> string list" where
  "fuzzyIds t orders =
     map orderId
       (filter (\<lambda>ord. orderId ord \<noteq> [] \<and> placingTime ord \<noteq> None
                  \<and> (case fillPrice ord of None \<Rightarrow> False | Some p \<Rightarrow> p \<noteq> 0)
                  \<and> (near ord (db_entryTime t) (db_entryPrice t)
                       \<or> near ord (db_exitTime t) (db_exitPrice t)))
          orders)"

text \<open>\<^verbatim>\<open>extractTradeOrderIds(trade, orders)\<close>.\<close>

definition extractTradeOrderIds :: "db_trade \<Rightarrow> js_order list \<Rightarrow> string list" where
  "extractTradeOrderIds t orders =
     (let ids1 = truthy [db_entryOrderId t, db_exitOrderId t];
          ids2 = (if ids1 = [] then truthy [nestedOrderId (db_entryOrder t), nestedOrderId (db_exitOrder t)]
                  else ids1);
          ids3 = (if ids2 = [] \<and> db_id t \<noteq> [] \<and> startsWith (db_id t) ''trade_''
                  then filter (\<lambda>part. part \<noteq> [] \<and> part \<noteq> ''undefined'' \<and> part \<noteq> ''null'')
                         (splitOn CHR ''_'' (drop 6 (db_id t)))
                  else ids2);
          ids4 = (if ids3 = [] then fuzzyIds t orders else ids3)
      in uniq ids4)"

text \<open>
  The result of a merge, and the state of its loop: the database, the two counters, the
  added trades and the number of identifiers generated so far.
\<close>

record merge_result =
  m_newTrades :: nat
  m_duplicates :: nat
  m_totalTrades :: nat
  m_addedTrades :: "db_trade list"

record merge_state =
  ms_db :: tradeDatabase
  ms_new :: nat
  ms_dup :: nat
  ms_added :: "db_trade list"
  ms_calls :: nat

definition nthOrNull :: "string list \<Rightarrow> nat \<Rightarrow> string" where
  "nthOrNull xs i = (if i < length xs then xs ! i else [])"

text \<open>
  One iteration of \<^verbatim>\<open>newTrades.forEach\<close>. \<^verbatim>\<open>generateTradeId()\<close> reads the clock and a random
  number: \<open>genId n\<close> is the identifier that its \<open>n\<close>-th call returns.
\<close>

definition mergeStep :: "(nat \<Rightarrow> string) \<Rightarrow> js_order list \<Rightarrow> merge_state \<Rightarrow> db_trade \<Rightarrow> merge_state" where
  "mergeStep genId newOrders st t =
     (let tradeOrderIds = extractTradeOrderIds t newOrders; db = ms_db st in
      if tradeOrderIds = [] then
        (let enhancedTrade = t\<lparr> db_id := genId (ms_calls st) \<rparr>
         in st\<lparr> ms_db := db\<lparr> trades := trades db @ [enhancedTrade] \<rparr>,
                ms_added := ms_added st @ [enhancedTrade],
                ms_new := ms_new st + 1,
                ms_calls := ms_calls st + 1 \<rparr>)
      else if \<exists>oid\<in>set tradeOrderIds. oid \<in> orderIds db then
        st\<lparr> ms_dup := ms_dup st + 1 \<rparr>
      else
        (let keep = (db_id t \<noteq> [] \<and> startsWith (db_id t) ''trade_'' \<and> \<not> includesStr (db_id t) ''_undefined'');
             enhancedTrade = t\<lparr> db_id := (if keep then db_id t else genId (ms_calls st)),
                                db_entryOrderId := nthOrNull tradeOrderIds 0,
                                db_exitOrderId := nthOrNull tradeOrderIds 1,
                                db_allOrderIds := Some tradeOrderIds \<rparr>
         in st\<lparr> ms_db := db\<lparr> trades := trades db @ [enhancedTrade],
                              orderIds := orderIds db \<union> set tradeOrderIds \<rparr>,
                ms_added := ms_added st @ [enhancedTrade],
                ms_new := ms_new st + 1,
                ms_calls := (if keep then ms_calls st else ms_calls st + 1) \<rparr>))"

text \<open>\<^verbatim>\<open>mergeTradesWithDatabase(newTrades, newOrders)\<close> on the database \<open>db\<close>.\<close>

definition mergeTradesWithDatabase ::
  "(nat \<Rightarrow> string) \<Rightarrow> tradeDatabase \<Rightarrow> db_trade list \<Rightarrow> js_order list \<Rightarrow> tradeDatabase \<times> merge_result" where
  "mergeTradesWithDatabase genId db newTrades newOrders =
     (let st = foldl (mergeStep genId newOrders)
                 \<lparr> ms_db = db, ms_new = 0, ms_dup = 0, ms_added = [], ms_calls = 0 \<rparr> newTrades
      in (ms_db st,
          \<lparr> m_newTrades = ms_new st, m_duplicates = ms_dup st,
            m_totalTrades = length (trades (ms_db st)), m_addedTrades = ms_added st \<rparr>))"

text \<open>The database of a first run, and after \<^verbatim>\<open>clearTradeDatabase\<close>.\<close>

definition emptyDatabase :: tradeDatabase where
  "emptyDatabase = \<lparr> trades = [], orderIds = {}, lastUpdated = None \<rparr>"

section \<open>Remote sync: pulling the trade database\<close>

definition isAlnum :: "char \<Rightarrow> bool" where
  "isAlnum c = (isUpper c \<or> isLower c \<or> isDigit c)"

text \<open>
  The fingerprint of \<^verbatim>\<open>pullTradeDatabase\<close>. The source joins the five parts with underscores
  into one string; the symbol part holds no underscore, so two such strings are equal exactly
  when the five parts are, and the fingerprint is kept as the tuple of its parts.
\<close>

type_synonym fingerprint = "string \<times> int \<times> int \<times> int \<times> int"

definition fingerprint :: "db_trade \<Rightarrow> fingerprint" where
  "fingerprint t =
     (filter isAlnum (orElse (db_contract t) (orElse (db_symbol t) [])),
      timeOf (db_entryTime t),
      timeOf (db_exitTime t),
      mathRound (numOf (db_entryPrice t) * 100),
      mathRound (numOf (db_exitPrice t) * 100))"

text \<open>
  \<^verbatim>\<open>[trade.entryOrderId, trade.exitOrderId, ...(trade.allOrderIds || [])].filter(Boolean)\<close>.
\<close>

definition pullOrderIds :: "db_trade \<Rightarrow> string list" where
  "pullOrderIds t =
     truthy ([db_entryOrderId t, db_exitOrderId t]
             @ (case db_allOrderIds t of None \<Rightarrow> [] | Some ids \<Rightarrow> ids))"

text \<open>
  The state of the loop over the remote trades: the local trades, the three lookup sets and
  the counter.
\<close>

record pull_state =
  localTrades :: "db_trade list"
  localIds :: "string set"
  localOrderIds :: "string set"
  localFingerprints :: "fingerprint set"
  merged :: nat

definition pullInit :: "db_trade list \<Rightarrow> pull_state" where
  "pullInit local =
     \<lparr> localTrades = local,
       localIds = set (truthy (map db_id local)),
       localOrderIds = set (concat (map pullOrderIds local)),
       localFingerprints = set (map fingerprint local),
       merged = 0 \<rparr>"

text \<open>One iteration of \<^verbatim>\<open>for (const trade of remote.trades)\<close>.\<close>

definition pullStep :: "pull_state \<Rightarrow> db_trade \<Rightarrow> pull_state" where
  "pullStep st t =
     (if db_id t \<noteq> [] \<and> db_id t \<in> localIds st then st
      else let tradeOrderIds = pullOrderIds t in
        if tradeOrderIds \<noteq> [] \<and> (\<exists>oid\<in>set tradeOrderIds. oid \<in> localOrderIds st) then st
        else let fp = fingerprint t in
          if fp \<in> localFingerprints st then st
          else st\<lparr> localTrades := localTrades st @ [t],
                   localIds := insert (db_id t) (localIds st),
                   localFingerprints := insert fp (localFingerprints st),
                   localOrderIds := localOrderIds st \<union> set tradeOrderIds,
                   merged := merged st + 1 \<rparr>)"

text \<open>
  \<^verbatim>\<open>pullTradeDatabase()\<close> between the fetch of the remote trades and the write to local
  storage: the local trades after the merge and the number of merged trades.
\<close>

definition pullTradeDatabase :: "db_trade list \<Rightarrow> db_trade list \<Rightarrow> db_trade list \<times> nat" where
  "pullTradeDatabase local remote =
     (let st = foldl pullStep (pullInit local) remote in (localTrades st, merged st))"

section \<open>Notions of the statements\<close>

text \<open>
  The definitions of this section are not part of the program: they name what the theorems
  below talk about.
\<close>

text \<open>
  The two orders that the sort establishes: by placing time, and by the comparator itself.
\<close>

definition timeLe :: "js_order \<Rightarrow> js_order \<Rightarrow> bool" where
  "timeLe a b = (timeOf (placingTime a) \<le> timeOf (placingTime b))"

definition cmpLe :: "js_order \<Rightarrow> js_order \<Rightarrow> bool" where
  "cmpLe a b = (compareOrders a b \<le> 0)"

text \<open>The side of an order as the matcher compares it.\<close>

definition lside :: "js_order \<Rightarrow> string" where
  "lside ord = toLowerCase (side ord)"

text \<open>
  The copies that the closing loop hands to \<^verbatim>\<open>createTradeObject\<close>, and
  the lot that the main loop pushes.
\<close>

definition origOrder :: "js_order \<Rightarrow> int \<Rightarrow> js_order" where
  "origOrder ord q = ord\<lparr> originalQty := Some (qty ord), qty := q \<rparr>"

definition entryCopy :: "lot \<Rightarrow> int \<Rightarrow> js_order" where
  "entryCopy l q = (lot_order l)\<lparr> originalQty := Some (qty (lot_order l)), qty := q \<rparr>"

definition newLot :: "js_order \<Rightarrow> int \<Rightarrow> lot" where
  "newLot ord q = \<lparr> lot_qty = q, lot_price = fillPrice ord, lot_order = ord \<rparr>"

text \<open>
  The trades that one iteration of the main loop adds; the state of the loop when the first
  \<open>i\<close> qualifying orders have been processed; the queue that the \<open>i\<close>-th qualifying order meets
  and the trades that its iteration adds.
\<close>

definition emitted :: "positions \<times> trade list \<Rightarrow> js_order \<Rightarrow> trade list" where
  "emitted st ord = drop (length (snd st)) (snd (matchStep st ord))"

definition stateBefore :: "js_order list \<Rightarrow> nat \<Rightarrow> positions \<times> trade list" where
  "stateBefore orders i = matchLoop (Map.empty, []) (take i (validOrders orders))"

definition queueBefore :: "js_order list \<Rightarrow> nat \<Rightarrow> lot list" where
  "queueBefore orders i = getPos (fst (stateBefore orders i)) (symbol (validOrders orders ! i))"

definition emittedAt :: "js_order list \<Rightarrow> nat \<Rightarrow> trade list" where
  "emittedAt orders i = emitted (stateBefore orders i) (validOrders orders ! i)"

text \<open>The open quantity of a queue, and the traded quantity of a symbol.\<close>

definition sumLots :: "lot list \<Rightarrow> int" where
  "sumLots pos = sum_list (map lot_qty pos)"

definition tradeQty :: "string \<Rightarrow> trade list \<Rightarrow> int" where
  "tradeQty sy ts = sum_list (map quantity (filter (\<lambda>t. symbol (entryOrder t) = sy) ts))"

text \<open>
  The orders that take part in the matching, and their total quantity for a symbol.
\<close>

definition participates :: "js_order \<Rightarrow> bool" where
  "participates ord = (isValidOrder ord \<and> status ord = ''Filled'')"

definition orderQty :: "string \<Rightarrow> js_order list \<Rightarrow> int" where
  "orderQty sy orders = sum_list (map qty (filter (\<lambda>ord. participates ord \<and> symbol ord = sy) orders))"

text \<open>
  Invariants of the queues: every lot lies in the queue of its symbol, has a positive
  quantity, shares the side of the oldest lot, and keeps an order of the input.
\<close>

definition keyed :: "positions \<Rightarrow> bool" where
  "keyed ps = (\<forall>sy. \<forall>l\<in>set (getPos ps sy). symbol (lot_order l) = sy)"

definition posLots :: "positions \<Rightarrow> bool" where
  "posLots ps = (\<forall>sy. \<forall>l\<in>set (getPos ps sy). 0 < lot_qty l)"

definition sameSide :: "positions \<Rightarrow> bool" where
  "sameSide ps = (\<forall>sy. \<forall>l\<in>set (getPos ps sy). lside (lot_order l) = lside (lot_order (hd (getPos ps sy))))"

definition fromOrders :: "js_order set \<Rightarrow> positions \<Rightarrow> bool" where
  "fromOrders S ps = (\<forall>sy. \<forall>l\<in>set (getPos ps sy). lot_order l \<in> S)"

text \<open>
  A trade made of the quantity-adjusted copies of two input orders of different sides.
\<close>

definition roundTrip :: "js_order set \<Rightarrow> trade \<Rightarrow> bool" where
  "roundTrip S t =
     (\<exists>ord\<in>S. \<exists>x\<in>S. \<exists>q. t = createTradeObject (origOrder ord q) (origOrder x q)
        \<and> lside ord \<noteq> lside x)"

text \<open>
  Every open lot was placed by time \<open>T\<close>; a trade whose entry is not after its
  exit.
\<close>

definition lotsBefore :: "int \<Rightarrow> positions \<Rightarrow> bool" where
  "lotsBefore T ps = (\<forall>sy. \<forall>l\<in>set (getPos ps sy). \<exists>a. placingTime (lot_order l) = Some a \<and> a \<le> T)"

definition ordered :: "trade \<Rightarrow> bool" where
  "ordered t = (\<exists>a b. entryTime t = Some a \<and> exitTime t = Some b \<and> a \<le> b)"

text \<open>
  The commission rule in the words of the specification: the registry rate when neither leg
  carries a non-zero commission, the per-order values otherwise.
\<close>

definition specCommission :: "trade \<Rightarrow> real" where
  "specCommission t =
     (if commNum (commission (entryOrder t)) = 0 \<and> commNum (commission (exitOrder t)) = 0 then
        spec_commission (getContractSpecs (contract t)) * 2 * real_of_int (quantity t)
      else
        commNum (commission (entryOrder t))
          * (real_of_int (quantity t) / real_of_int (qtyOr (originalQty (entryOrder t)) (quantity t)))
        + commNum (commission (exitOrder t))
          * (real_of_int (quantity t) / real_of_int (qtyOr (originalQty (exitOrder t)) (quantity t))))"

text \<open>
  A trade without a resolvable order identifier; the loop of the merge; a trade one of whose
  identifiers is tracked.
\<close>

definition noIds :: "js_order list \<Rightarrow> db_trade \<Rightarrow> bool" where
  "noIds newOrders t = (extractTradeOrderIds t newOrders = [])"

definition mergeLoop :: "(nat \<Rightarrow> string) \<Rightarrow> js_order list \<Rightarrow> merge_state \<Rightarrow> db_trade list \<Rightarrow> merge_state" where
  "mergeLoop genId newOrders st ts = foldl (mergeStep genId newOrders) st ts"

definition tracked :: "js_order list \<Rightarrow> string set \<Rightarrow> db_trade \<Rightarrow> bool" where
  "tracked newOrders ids t = (\<exists>oid\<in>set (extractTradeOrderIds t newOrders). oid \<in> ids)"

text \<open>
  The three tests of the pull in one predicate, the agreement of the lookup sets with the
  local trades, and the growth of the lookup sets.
\<close>

definition skipped :: "pull_state \<Rightarrow> db_trade \<Rightarrow> bool" where
  "skipped st t =
     ((db_id t \<noteq> [] \<and> db_id t \<in> localIds st)
      \<or> (pullOrderIds t \<noteq> [] \<and> (\<exists>oid\<in>set (pullOrderIds t). oid \<in> localOrderIds st))
      \<or> fingerprint t \<in> localFingerprints st)"

definition consistent :: "pull_state \<Rightarrow> bool" where
  "consistent st =
     (localIds st - {[]} = set (truthy (map db_id (localTrades st)))
      \<and> localOrderIds st = set (concat (map pullOrderIds (localTrades st)))
      \<and> localFingerprints st = set (map fingerprint (localTrades st)))"

definition below :: "pull_state \<Rightarrow> pull_state \<Rightarrow> bool" where
  "below st st' =
     (localIds st - {[]} \<subseteq> localIds st' \<and> localOrderIds st \<subseteq> localOrderIds st'
      \<and> localFingerprints st \<subseteq> localFingerprints st')"

text \<open>
  A trade that a store holds by its identifier, by one of its order identifiers or by its
  fingerprint.
\<close>

definition represented :: "db_trade list \<Rightarrow> db_trade \<Rightarrow> bool" where
  "represented store t =
     ((db_id t \<noteq> [] \<and> db_id t \<in> db_id ` set store)
      \<or> (\<exists>oid\<in>set (pullOrderIds t). oid \<in> set (concat (map pullOrderIds store)))
      \<or> fingerprint t \<in> fingerprint ` set store)"

section \<open>Example inputs\<close>

text \<open>A filled order as the TradingView parser builds it, with a blank commission.\<close>

definition filledOrder :: "string \<Rightarrow> string \<Rightarrow> int \<Rightarrow> real \<Rightarrow> int \<Rightarrow> string \<Rightarrow> js_order" where
  "filledOrder sy sd q p t oid =
     \<lparr> symbol = sy, side = sd, qty = q, fillPrice = Some p, status = ''Filled'',
       commission = CommBlank, placingTime = Some t, orderId = oid, leverage = [], margin = [],
       broker = ''TradingView'', originalQty = None \<rparr>"

text \<open>
  A filled order as the Interactive Brokers parser builds it: the quantity keeps its sign, the
  commission is a number, and there is no leverage; the margin string is empty when the net
  amount of the row is 0.
\<close>

definition ibkrOrder :: "string \<Rightarrow> string \<Rightarrow> int \<Rightarrow> real \<Rightarrow> int \<Rightarrow> real \<Rightarrow> string \<Rightarrow> js_order" where
  "ibkrOrder sy sd q p t c oid =
     \<lparr> symbol = sy, side = sd, qty = q, fillPrice = Some p, status = ''Filled'',
       commission = CommNum c, placingTime = Some t, orderId = oid, leverage = [], margin = [],
       broker = ''IBKR'', originalQty = None \<rparr>"

text \<open>
  The reference stream: Sell 5 @ 100, then Buy 2 @ 101, Buy 2 @ 102, Buy 1 @ 103 on one
  symbol.
\<close>

definition referenceStream :: "string \<Rightarrow> int \<Rightarrow> int \<Rightarrow> int \<Rightarrow> int \<Rightarrow> js_order list" where
  "referenceStream sy t1 t2 t3 t4 =
     [filledOrder sy ''Sell'' 5 100 t1 ''E1'', filledOrder sy ''Buy'' 2 101 t2 ''X1'',
      filledOrder sy ''Buy'' 2 102 t3 ''X2'', filledOrder sy ''Buy'' 1 103 t4 ''X3'']"

text \<open>
  Two symbols interleaved: partial exits, a closing order that flips the position, and a
  symbol that stays open.
\<close>

definition interleavedStream :: "js_order list" where
  "interleavedStream =
     [filledOrder ''CME_MINI:ES1!'' ''Sell'' 5 100 1000 ''E1'',
      filledOrder ''NQ1!'' ''Buy'' 3 200 1500 ''N1'',
      filledOrder ''CME_MINI:ES1!'' ''Buy'' 2 101 2000 ''X1'',
      filledOrder ''NQ1!'' ''Sell'' 1 201 2500 ''N2'',
      filledOrder ''CME_MINI:ES1!'' ''Buy'' 4 102 3000 ''X2'',
      filledOrder ''CME_MINI:ES1!'' ''Sell'' 1 103 4000 ''X3'']"

text \<open>A filled Buy at price 0 followed by a filled Sell.\<close>

definition zeroPriceStream :: "js_order list" where
  "zeroPriceStream =
     [filledOrder ''ES1!'' ''Buy'' 1 0 1000 ''Z1'', filledOrder ''ES1!'' ''Sell'' 1 5 2000 ''Z2'']"

text \<open>
  Buy 5 ES @ 6970.75, Sell 5 ES @ 6976.75, and the trade the matcher makes of them.
\<close>

definition roundTripOrders :: "js_order list" where
  "roundTripOrders =
     [filledOrder ''CME_MINI:ES1!'' ''Buy'' 5 6970.75 1000 ''R1'',
      filledOrder ''CME_MINI:ES1!'' ''Sell'' 5 6976.75 2000 ''R2'']"

definition roundTripTrade :: trade where
  "roundTripTrade = hd (matchTrades roundTripOrders)"

text \<open>A Sell 10 with commission 10 closed by Buy 6 and Buy 4.\<close>

definition splitOrders :: "js_order list" where
  "splitOrders =
     [(filledOrder ''CME_MINI:ES1!'' ''Sell'' 10 100 1000 ''P1'')\<lparr> commission := CommNum 10 \<rparr>,
      filledOrder ''CME_MINI:ES1!'' ''Buy'' 6 99 2000 ''P2'',
      filledOrder ''CME_MINI:ES1!'' ''Buy'' 4 98 3000 ''P3'']"

text \<open>
  A round trip whose two orders carry the commission -1.5, and the trade the matcher makes of
  them.
\<close>

definition negativeCommissionOrders :: "js_order list" where
  "negativeCommissionOrders =
     [ibkrOrder ''ES1!'' ''Buy'' 1 100 1000 (- 1.5) ''ibkr_1000_1'',
      ibkrOrder ''ES1!'' ''Sell'' 1 101 2000 (- 1.5) ''ibkr_2000_2'']"

definition negativeCommissionTrade :: trade where
  "negativeCommissionTrade = hd (matchTrades negativeCommissionOrders)"

text \<open>
  Orders with signed quantities: a Buy 2 closed by a Sell of quantity -3, and a Sell of
  quantity -2 closed by a Buy 1.
\<close>

definition negativeQtyOrders :: "js_order list" where
  "negativeQtyOrders =
     [ibkrOrder ''ES1!'' ''Buy'' 2 100 1000 1.5 ''ibkr_1000_1'',
      ibkrOrder ''ES1!'' ''Sell'' (- 3) 101 2000 1.5 ''ibkr_2000_2'']"

definition negativeLotOrders :: "js_order list" where
  "negativeLotOrders =
     [ibkrOrder ''ES1!'' ''Sell'' (- 2) 100 1000 1.5 ''ibkr_1000_1'',
      ibkrOrder ''ES1!'' ''Buy'' 1 101 2000 1.5 ''ibkr_2000_2'']"

text \<open>The priced trades of the interleaved stream and of the round trip.\<close>

definition pricedInterleaved :: "priced_trade list" where
  "pricedInterleaved = map calculateTrade (matchTrades interleavedStream)"

definition pricedRoundTrip :: "priced_trade list" where
  "pricedRoundTrip = map calculateTrade (matchTrades roundTripOrders)"

text \<open>
  The mock orders and trades of the repository's storage test: two round trips on ES with
  order ids on the trades.
\<close>

definition mockOrders :: "js_order list" where
  "mockOrders =
     [(filledOrder ''CME_MINI:ES1!'' ''BUY'' 5 6987.75 1770737400000 ''ORD_12345'')
        \<lparr> commission := CommUndefined, broker := [] \<rparr>,
      (filledOrder ''CME_MINI:ES1!'' ''SELL'' 5 6988.5 1770737700000 ''ORD_12346'')
        \<lparr> commission := CommUndefined, broker := [] \<rparr>,
      (filledOrder ''CME_MINI:ES1!'' ''BUY'' 3 6990.25 1770739200000 ''ORD_12347'')
        \<lparr> commission := CommUndefined, broker := [] \<rparr>,
      (filledOrder ''CME_MINI:ES1!'' ''SELL'' 3 6991 1770739500000 ''ORD_12348'')
        \<lparr> commission := CommUndefined, broker := [] \<rparr>]"

definition mockTrades :: "db_trade list" where
  "mockTrades =
     [\<lparr> db_id = ''trade_ORD_12345_ORD_12346'', db_entryOrderId = ''ORD_12345'',
        db_exitOrderId = ''ORD_12346'', db_entryOrder = None, db_exitOrder = None,
        db_entryTime = Some 1770737400000, db_exitTime = Some 1770737700000,
        db_entryPrice = Some 6987.75, db_exitPrice = Some 6988.5,
        db_contract = ''CME_MINI:ES1!'', db_symbol = [], db_allOrderIds = None \<rparr>,
      \<lparr> db_id = ''trade_ORD_12347_ORD_12348'', db_entryOrderId = ''ORD_12347'',
        db_exitOrderId = ''ORD_12348'', db_entryOrder = None, db_exitOrder = None,
        db_entryTime = Some 1770739200000, db_exitTime = Some 1770739500000,
        db_entryPrice = Some 6990.25, db_exitPrice = Some 6991,
        db_contract = ''CME_MINI:ES1!'', db_symbol = [], db_allOrderIds = None \<rparr>]"

text \<open>An identifier source for the examples: the \<open>n\<close>-th generated identifier.\<close>

definition sampleGenId :: "nat \<Rightarrow> string" where
  "sampleGenId n = ''trade_1762128000000_'' @ replicate (Suc n) CHR ''k''"

text \<open>The orders of an export without an order-id column, and the trade they give.\<close>

definition noIdOrders :: "js_order list" where
  "noIdOrders =
     [filledOrder ''CME_MINI:ES1!'' ''Buy'' 5 6970.75 1000 [],
      filledOrder ''CME_MINI:ES1!'' ''Sell'' 5 6976.75 2000 []]"

definition noIdTrades :: "db_trade list" where
  "noIdTrades = map toDbTrade (map calculateTrade (matchTrades noIdOrders))"

text \<open>Two stored trades with different identifiers, no order ids and the same fingerprint.\<close>

definition localTwin :: db_trade where
  "localTwin =
     \<lparr> db_id = ''local_a'', db_entryOrderId = [], db_exitOrderId = [],
       db_entryOrder = None, db_exitOrder = None,
       db_entryTime = Some 1000, db_exitTime = Some 2000,
       db_entryPrice = Some 6970.75, db_exitPrice = Some 6976.75,
       db_contract = ''ES1!'', db_symbol = [], db_allOrderIds = None \<rparr>"

definition remoteTwin :: db_trade where
  "remoteTwin = localTwin\<lparr> db_id := ''remote_b'', db_contract := ''ES1'', db_entryPrice := Some 6970.751 \<rparr>"

text \<open>A third trade without order ids, with a fingerprint of its own.\<close>

definition otherTrade :: db_trade where
  "otherTrade = localTwin\<lparr> db_id := ''remote_c'', db_entryTime := Some 5000, db_exitTime := Some 6000 \<rparr>"

definition twinFirstMerge :: "tradeDatabase \<times> merge_result" where
  "twinFirstMerge = mergeTradesWithDatabase sampleGenId emptyDatabase [localTwin] []"

section \<open>Properties\<close>

text \<open>
  The sort, the closing loop and the main loop of the matcher are characterised first; the
  theorems of the claims follow, each with the claim it settles, then the calculator, the
  summary, the merge into the store and the pull from the remote store.
\<close>

subsection \<open>The sort\<close>

lemma set_insertOrder: "set (insertOrder x ys) = insert x (set ys)"
  by (induction ys) auto

lemma set_sortOrders: "set (sortOrders xs) = set xs"
  by (induction xs) (auto simp: sortOrders_def set_insertOrder)

lemma sum_insertOrder: "sum_list (map f (insertOrder x ys)) = (f x :: int) + sum_list (map f ys)"
  by (induction ys) auto

lemma sum_sortOrders: "sum_list (map f (sortOrders xs)) = (sum_list (map f xs) :: int)"
  by (induction xs) (auto simp: sortOrders_def sum_insertOrder)

lemma cmpLe_iff:
  "cmpLe a b \<longleftrightarrow>
     timeOf (placingTime a) < timeOf (placingTime b)
     \<or> (timeOf (placingTime a) = timeOf (placingTime b) \<and> numOf (fillPrice a) \<le> numOf (fillPrice b))"
  by (auto simp: cmpLe_def compareOrders_def Let_def)

lemma cmpLe_trans: "cmpLe a b \<Longrightarrow> cmpLe b c \<Longrightarrow> cmpLe a c"
  by (auto simp: cmpLe_iff)

lemma cmpLe_total: "\<not> cmpLe a b \<Longrightarrow> cmpLe b a"
  by (auto simp: cmpLe_iff)

lemma insertOrder_cmpLe:
  "insertOrder x (y # ys) = (if cmpLe x y then x # y # ys else y # insertOrder x ys)"
  by (simp add: cmpLe_def)

lemma sorted_cmp_insertOrder: "sorted_wrt cmpLe ys \<Longrightarrow> sorted_wrt cmpLe (insertOrder x ys)"
proof (induction ys)
  case Nil
  then show ?case by simp
next
  case (Cons y ys)
  show ?case
  proof (cases "cmpLe x y")
    case True
    with Cons.prems have "\<forall>z\<in>set ys. cmpLe x z" by (auto intro: cmpLe_trans)
    with True Cons.prems show ?thesis by (simp add: insertOrder_cmpLe del: insertOrder.simps)
  next
    case False
    then have "cmpLe y x" by (rule cmpLe_total)
    with False Cons show ?thesis
      by (auto simp: insertOrder_cmpLe set_insertOrder simp del: insertOrder.simps)
  qed
qed

lemma sorted_cmp_sortOrders: "sorted_wrt cmpLe (sortOrders xs)"
  by (induction xs) (auto simp: sortOrders_def sorted_cmp_insertOrder)

lemma insertOrder_front:
  assumes "\<forall>z\<in>set ys. cmpLe x z"
  shows "insertOrder x ys = x # ys"
  using assms by (cases ys) (simp_all add: insertOrder_cmpLe del: insertOrder.simps(2))

lemma filter_insertOrder:
  assumes "sorted_wrt cmpLe ys"
  shows "filter P (insertOrder x ys) = (if P x then insertOrder x (filter P ys) else filter P ys)"
  using assms
proof (induction ys)
  case Nil
  then show ?case by simp
next
  case (Cons y ys)
  show ?case
  proof (cases "cmpLe x y")
    case True
    with Cons.prems have "\<forall>z\<in>set (y # ys). cmpLe x z" by (auto intro: cmpLe_trans)
    then have "\<forall>z\<in>set (filter P (y # ys)). cmpLe x z" by simp
    then have "insertOrder x (filter P (y # ys)) = x # filter P (y # ys)"
      by (rule insertOrder_front)
    with True show ?thesis by (simp add: insertOrder_cmpLe del: insertOrder.simps)
  next
    case False
    with Cons show ?thesis by (simp add: insertOrder_cmpLe del: insertOrder.simps)
  qed
qed

lemma sortOrders_simps: "sortOrders [] = []" "sortOrders (x # xs) = insertOrder x (sortOrders xs)"
  by (simp_all add: sortOrders_def)

lemma filter_sortOrders: "filter P (sortOrders xs) = sortOrders (filter P xs)"
proof (induction xs)
  case Nil
  show ?case by (simp add: sortOrders_simps)
next
  case (Cons x xs)
  have "filter P (sortOrders (x # xs)) = filter P (insertOrder x (sortOrders xs))"
    by (simp add: sortOrders_simps)
  also have "\<dots> = (if P x then insertOrder x (filter P (sortOrders xs)) else filter P (sortOrders xs))"
    by (rule filter_insertOrder) (rule sorted_cmp_sortOrders)
  also have "\<dots> = sortOrders (filter P (x # xs))"
    by (simp add: Cons.IH sortOrders_simps)
  finally show ?case .
qed

lemma cmpLe_timeLe: "cmpLe a b \<Longrightarrow> timeLe a b"
  by (auto simp: cmpLe_iff timeLe_def)

lemma sorted_sortOrders: "sorted_wrt timeLe (sortOrders xs)"
  using sorted_cmp_sortOrders [of xs] by (rule sorted_wrt_mono_rel [rotated]) (simp add: cmpLe_timeLe)

subsection \<open>The closing loop\<close>

lemma closeLots_stop:
  assumes "\<not> (r > 0 \<and> pos \<noteq> [])"
  shows "closeLots ord r pos ts = (r, pos, ts)"
  by (subst closeLots.simps) (simp only: assms if_False)

lemma closeLots_Cons:
  "r > 0 \<Longrightarrow> closeLots ord r (l # rest) ts =
     closeLots ord (r - min r (lot_qty l))
       (if lot_qty l - min r (lot_qty l) \<le> 0 then rest
        else l\<lparr> lot_qty := lot_qty l - min r (lot_qty l) \<rparr> # rest)
       (ts @ [createTradeObject (entryCopy l (min r (lot_qty l))) (origOrder ord (min r (lot_qty l)))])"
  by (subst closeLots.simps) (simp add: Let_def entryCopy_def origOrder_def)

lemma lot_qty_update: "lot_qty (l\<lparr> lot_qty := x \<rparr>) = x"
  by simp

lemma closeLots_induct [case_names stop step]:
  assumes stop: "\<And>ord r pos ts. \<not> (r > 0 \<and> pos \<noteq> []) \<Longrightarrow> P ord r pos ts"
    and step: "\<And>ord r l rest ts. r > 0 \<Longrightarrow>
        P ord (r - min r (lot_qty l))
          (if lot_qty l - min r (lot_qty l) \<le> 0 then rest
           else l\<lparr> lot_qty := lot_qty l - min r (lot_qty l) \<rparr> # rest)
          (ts @ [createTradeObject (entryCopy l (min r (lot_qty l))) (origOrder ord (min r (lot_qty l)))])
        \<Longrightarrow> P ord r (l # rest) ts"
  shows "P ord r pos ts"
proof (induction ord r pos ts rule: closeLots.induct)
  case (1 ord r pos ts)
  show ?case
  proof (cases "r > 0 \<and> pos \<noteq> []")
    case False
    then show ?thesis by (rule stop)
  next
    case True
    then obtain l rest where pos: "pos = l # rest" by (cases pos) auto
    from True have r: "r > 0" by simp
    have "P ord (r - min r (lot_qty l))
          (if lot_qty l - min r (lot_qty l) \<le> 0 then rest
           else l\<lparr> lot_qty := lot_qty l - min r (lot_qty l) \<rparr> # rest)
          (ts @ [createTradeObject (entryCopy l (min r (lot_qty l))) (origOrder ord (min r (lot_qty l)))])"
      using "1.IH" [OF True refl refl refl refl refl refl] unfolding pos
      by (simp only: list.sel lot_qty_update entryCopy_def origOrder_def)
    then show ?thesis unfolding pos by (rule step [OF r])
  qed
qed

lemma createTradeObject_sel [simp]:
  "quantity (createTradeObject a b) = qty a"
  "entryOrder (createTradeObject a b) = a"
  "exitOrder (createTradeObject a b) = b"
  "entryTime (createTradeObject a b) = placingTime a"
  "exitTime (createTradeObject a b) = placingTime b"
  "entryPrice (createTradeObject a b) = fillPrice a"
  "exitPrice (createTradeObject a b) = fillPrice b"
  "trade_side (createTradeObject a b) = (if toLowerCase (side a) = ''buy'' then ''LONG'' else ''SHORT'')"
  by (simp_all add: createTradeObject_def)

lemma closeLots_conserve:
  assumes "closeLots ord r pos ts = (r', pos', ts')"
    and "\<forall>l\<in>set pos. symbol (lot_order l) = sy"
  shows "r' + sumLots pos' + 2 * tradeQty sy ts' = r + sumLots pos + 2 * tradeQty sy ts"
  using assms
proof (induction ord r pos ts rule: closeLots_induct)
  case (stop ord r pos ts)
  then show ?case by (simp add: closeLots_stop)
next
  case (step ord r l rest ts)
  from step.prems(1) step.hyps have
    "closeLots ord (r - min r (lot_qty l))
       (if lot_qty l - min r (lot_qty l) \<le> 0 then rest
        else l\<lparr> lot_qty := lot_qty l - min r (lot_qty l) \<rparr> # rest)
       (ts @ [createTradeObject (entryCopy l (min r (lot_qty l))) (origOrder ord (min r (lot_qty l)))])
     = (r', pos', ts')"
    by (simp add: closeLots_Cons)
  moreover have "\<forall>x\<in>set (if lot_qty l - min r (lot_qty l) \<le> 0 then rest
        else l\<lparr> lot_qty := lot_qty l - min r (lot_qty l) \<rparr> # rest). symbol (lot_order x) = sy"
    using step.prems(2) by auto
  ultimately have "r' + sumLots pos' + 2 * tradeQty sy (ts') =
     (r - min r (lot_qty l)) + sumLots (if lot_qty l - min r (lot_qty l) \<le> 0 then rest
        else l\<lparr> lot_qty := lot_qty l - min r (lot_qty l) \<rparr> # rest)
      + 2 * tradeQty sy (ts @ [createTradeObject (entryCopy l (min r (lot_qty l))) (origOrder ord (min r (lot_qty l)))])"
    by (rule step.IH)
  also have "\<dots> = r + sumLots (l # rest) + 2 * tradeQty sy ts"
    using step.prems(2) by (auto simp: sumLots_def tradeQty_def entryCopy_def min_def)
  finally show ?case .
qed

lemma entryCopy_update [simp]: "entryCopy (l\<lparr> lot_qty := x \<rparr>) q = entryCopy l q"
  by (simp add: entryCopy_def)

lemma closeLots_new:
  assumes "closeLots ord r pos ts = (r', pos', ts')"
  shows "\<exists>new. ts' = ts @ new \<and>
           (\<forall>t\<in>set new. \<exists>l\<in>set pos. \<exists>q.
               t = createTradeObject (entryCopy l q) (origOrder ord q))"
  using assms
proof (induction ord r pos ts rule: closeLots_induct)
  case (stop ord r pos ts)
  then show ?case by (simp add: closeLots_stop)
next
  case (step ord r l rest ts)
  let ?q = "min r (lot_qty l)"
  let ?pos = "if lot_qty l - ?q \<le> 0 then rest else l\<lparr> lot_qty := lot_qty l - ?q \<rparr> # rest"
  let ?t = "createTradeObject (entryCopy l ?q) (origOrder ord ?q)"
  from step.prems step.hyps have "closeLots ord (r - ?q) ?pos (ts @ [?t]) = (r', pos', ts')"
    by (simp add: closeLots_Cons)
  from step.IH [OF this] obtain new where new: "ts' = (ts @ [?t]) @ new"
    and all: "\<forall>t\<in>set new. \<exists>l\<in>set ?pos. \<exists>q. t = createTradeObject (entryCopy l q) (origOrder ord q)"
    by blast
  have "\<forall>t\<in>set new. \<exists>l'\<in>set (l # rest). \<exists>q. t = createTradeObject (entryCopy l' q) (origOrder ord q)"
  proof
    fix t assume "t \<in> set new"
    with all obtain l' q where l': "l' \<in> set ?pos" and t: "t = createTradeObject (entryCopy l' q) (origOrder ord q)"
      by blast
    show "\<exists>l'\<in>set (l # rest). \<exists>q. t = createTradeObject (entryCopy l' q) (origOrder ord q)"
    proof (cases "l' \<in> set rest")
      case True
      with t show ?thesis by auto
    next
      case False
      with l' have "l' = l\<lparr> lot_qty := lot_qty l - ?q \<rparr>" by (auto split: if_splits)
      with t have "t = createTradeObject (entryCopy l q) (origOrder ord q)" by simp
      then show ?thesis by auto
    qed
  qed
  then have "\<forall>t\<in>set (?t # new). \<exists>l'\<in>set (l # rest). \<exists>q. t = createTradeObject (entryCopy l' q) (origOrder ord q)"
    by auto
  with new show ?case by (intro exI [of _ "?t # new"]) simp
qed

lemma closeLots_pos:
  assumes "closeLots ord r pos ts = (r', pos', ts')"
  shows "\<forall>l'\<in>set pos'. \<exists>l\<in>set pos. lot_order l' = lot_order l"
  using assms
proof (induction ord r pos ts rule: closeLots_induct)
  case (stop ord r pos ts)
  then show ?case by (auto simp: closeLots_stop)
next
  case (step ord r l rest ts)
  let ?q = "min r (lot_qty l)"
  let ?pos = "if lot_qty l - ?q \<le> 0 then rest else l\<lparr> lot_qty := lot_qty l - ?q \<rparr> # rest"
  let ?t = "createTradeObject (entryCopy l ?q) (origOrder ord ?q)"
  from step.prems step.hyps have "closeLots ord (r - ?q) ?pos (ts @ [?t]) = (r', pos', ts')"
    by (simp add: closeLots_Cons)
  from step.IH [OF this] have "\<forall>l'\<in>set pos'. \<exists>l\<in>set ?pos. lot_order l' = lot_order l" .
  then show ?case by (auto split: if_splits)
qed

lemma closeLots_positive:
  assumes "closeLots ord r pos ts = (r', pos', ts')"
    and "\<forall>l\<in>set pos. 0 < lot_qty l"
    and "\<forall>t\<in>set ts. 0 < quantity t"
  shows "(\<forall>l\<in>set pos'. 0 < lot_qty l) \<and> (\<forall>t\<in>set ts'. 0 < quantity t) \<and> (0 \<le> r \<longrightarrow> 0 \<le> r')"
  using assms
proof (induction ord r pos ts rule: closeLots_induct)
  case (stop ord r pos ts)
  then show ?case by (simp add: closeLots_stop)
next
  case (step ord r l rest ts)
  let ?q = "min r (lot_qty l)"
  let ?pos = "if lot_qty l - ?q \<le> 0 then rest else l\<lparr> lot_qty := lot_qty l - ?q \<rparr> # rest"
  let ?t = "createTradeObject (entryCopy l ?q) (origOrder ord ?q)"
  from step.prems(1) step.hyps have run: "closeLots ord (r - ?q) ?pos (ts @ [?t]) = (r', pos', ts')"
    by (simp add: closeLots_Cons)
  from step.prems(2) step.hyps have q: "0 < ?q" by simp
  have lots: "\<forall>x\<in>set ?pos. 0 < lot_qty x" using step.prems(2) by auto
  have trs: "\<forall>t\<in>set (ts @ [?t]). 0 < quantity t"
    using step.prems(3) q by (simp add: entryCopy_def)
  have "0 \<le> r - ?q" by simp
  with step.IH [OF run lots trs] show ?case by simp
qed

lemma closeLots_leftover:
  assumes "closeLots ord r pos ts = (r', pos', ts')" and "0 < r'"
  shows "pos' = []"
  using assms
proof (induction ord r pos ts rule: closeLots_induct)
  case (stop ord r pos ts)
  then show ?case by (auto simp: closeLots_stop)
next
  case (step ord r l rest ts)
  then show ?case by (simp add: closeLots_Cons)
qed

text \<open>
  The loop closes the lots from the front of the queue: the \<open>n\<close>-th trade it emits is made of
  the order of the \<open>n\<close>-th lot and the closing order, and the lots it leaves are the lots behind
  the \<open>k\<close> it closed entirely, each with the order it held.
\<close>

lemma origOrder_sel:
  "qty (origOrder ord q) = q" "side (origOrder ord q) = side ord"
  by (simp_all add: origOrder_def)

lemma entryCopy_origOrder: "entryCopy l q = origOrder (lot_order l) q"
  by (simp add: entryCopy_def origOrder_def)

lemma closeLots_fifo:
  assumes "closeLots ord r pos ts = (r', pos', ts')"
  shows "\<exists>new k. ts' = ts @ new \<and> length new \<le> length pos \<and> k \<le> length new
           \<and> map entryOrder new = map2 origOrder (map lot_order pos) (map quantity new)
           \<and> map exitOrder new = map (origOrder ord) (map quantity new)
           \<and> map trade_side new =
               map (\<lambda>l. if toLowerCase (side (lot_order l)) = ''buy'' then ''LONG'' else ''SHORT'')
                 (take (length new) pos)
           \<and> map lot_order pos' = drop k (map lot_order pos)"
  using assms
proof (induction ord r pos ts rule: closeLots_induct)
  case (stop ord r pos ts)
  then have "ts' = ts" "pos' = pos" by (simp_all add: closeLots_stop)
  then show ?case by (intro exI [of _ "[]"] exI [of _ 0]) simp
next
  case (step ord r l rest ts)
  let ?q = "min r (lot_qty l)"
  let ?t = "createTradeObject (entryCopy l ?q) (origOrder ord ?q)"
  show ?case
  proof (cases "lot_qty l - ?q \<le> 0")
    case True
    from step.prems step.hyps have run: "closeLots ord (r - ?q)
        (if lot_qty l - ?q \<le> 0 then rest else l\<lparr> lot_qty := lot_qty l - ?q \<rparr> # rest)
        (ts @ [?t]) = (r', pos', ts')"
      by (simp add: closeLots_Cons)
    note ih = step.IH [OF run, unfolded if_P [OF True]]
    from ih obtain new k where new: "ts' = (ts @ [?t]) @ new" "length new \<le> length rest"
      "k \<le> length new"
      "map entryOrder new = map2 origOrder (map lot_order rest) (map quantity new)"
      "map exitOrder new = map (origOrder ord) (map quantity new)"
      "map trade_side new =
         map (\<lambda>l. if toLowerCase (side (lot_order l)) = ''buy'' then ''LONG'' else ''SHORT'')
           (take (length new) rest)"
      "map lot_order pos' = drop k (map lot_order rest)"
      by blast
    show ?thesis
      by (intro exI [of _ "?t # new"] exI [of _ "Suc k"]) (simp add: new entryCopy_origOrder origOrder_sel)
  next
    case False
    then have "r - ?q = 0" by (simp add: min_def split: if_splits)
    with step.prems step.hyps False
    have "(r', pos', ts') = (0, l\<lparr> lot_qty := lot_qty l - ?q \<rparr> # rest, ts @ [?t])"
      by (simp add: closeLots_Cons closeLots_stop)
    then have "ts' = ts @ [?t]" "pos' = l\<lparr> lot_qty := lot_qty l - ?q \<rparr> # rest" by simp_all
    then show ?thesis
      by (intro exI [of _ "[?t]"] exI [of _ 0]) (simp add: entryCopy_origOrder origOrder_sel)
  qed
qed

subsection \<open>The main loop of the matcher\<close>

lemma matchStep_cases [case_names skip opens scale close]:
  obtains
    (skip) "status ord \<noteq> ''Filled''" "matchStep st ord = st"
  | (opens) "status ord = ''Filled''" "getPos (fst st) (symbol ord) = []"
      "matchStep st ord = ((fst st)(symbol ord \<mapsto> [newLot ord (qty ord)]), snd st)"
  | (scale) "status ord = ''Filled''" "getPos (fst st) (symbol ord) \<noteq> []"
      "toLowerCase (side (lot_order (hd (getPos (fst st) (symbol ord))))) = toLowerCase (side ord)"
      "matchStep st ord =
         ((fst st)(symbol ord \<mapsto> getPos (fst st) (symbol ord) @ [newLot ord (qty ord)]), snd st)"
  | (close) r' pos' ts' where "status ord = ''Filled''" "getPos (fst st) (symbol ord) \<noteq> []"
      "toLowerCase (side (lot_order (hd (getPos (fst st) (symbol ord))))) \<noteq> toLowerCase (side ord)"
      "closeLots ord (qty ord) (getPos (fst st) (symbol ord)) (snd st) = (r', pos', ts')"
      "matchStep st ord =
         ((fst st)(symbol ord \<mapsto> (if r' > 0 then pos' @ [newLot ord r'] else pos')), ts')"
proof (cases "status ord = ''Filled''")
  case False
  then show ?thesis by (intro skip) (simp_all add: matchStep_def Let_def)
next
  case filled: True
  show ?thesis
  proof (cases "getPos (fst st) (symbol ord) = []")
    case True
    with filled show ?thesis by (intro opens) (simp_all add: matchStep_def Let_def newLot_def)
  next
    case nonempty: False
    show ?thesis
    proof (cases "toLowerCase (side (lot_order (hd (getPos (fst st) (symbol ord))))) = toLowerCase (side ord)")
      case True
      with filled nonempty show ?thesis
        by (intro scale) (simp_all add: matchStep_def Let_def newLot_def)
    next
      case False
      obtain r' pos' ts' where
        c: "closeLots ord (qty ord) (getPos (fst st) (symbol ord)) (snd st) = (r', pos', ts')"
        by (cases "closeLots ord (qty ord) (getPos (fst st) (symbol ord)) (snd st)") auto
      with filled nonempty False show ?thesis
        by (intro close [of r' pos' ts']) (simp_all add: matchStep_def Let_def newLot_def)
    qed
  qed
qed

lemma getPos_upd [simp]: "getPos (m(k \<mapsto> v)) k' = (if k' = k then v else getPos m k')"
  by (simp add: getPos_def)

lemma getPos_empty [simp]: "getPos Map.empty k = []"
  by (simp add: getPos_def)

lemma newLot_sel [simp]: "lot_qty (newLot ord q) = q" "lot_order (newLot ord q) = ord"
  by (simp_all add: newLot_def)

lemma keyed_matchStep:
  assumes "keyed (fst st)"
  shows "keyed (fst (matchStep st ord))"
proof (cases rule: matchStep_cases [of ord st])
  case skip
  with assms show ?thesis by simp
next
  case opens
  with assms show ?thesis by (auto simp: keyed_def)
next
  case scale
  with assms show ?thesis by (auto simp: keyed_def)
next
  case (close r' pos' ts')
  from closeLots_pos [OF close(4)] assms
  have "\<forall>l\<in>set pos'. symbol (lot_order l) = symbol ord"
    by (fastforce simp: keyed_def)
  with close(5) assms show ?thesis by (auto simp: keyed_def)
qed

lemma tradeQty_append [simp]: "tradeQty sy (ts @ us) = tradeQty sy ts + tradeQty sy us"
  by (simp add: tradeQty_def)

lemma sumLots_append [simp]: "sumLots (ps @ qs) = sumLots ps + sumLots qs"
  by (simp add: sumLots_def)

lemma sumLots_simps [simp]: "sumLots [] = 0" "sumLots (l # ps) = lot_qty l + sumLots ps"
  by (simp_all add: sumLots_def)

lemma tradeQty_other:
  assumes "\<forall>t\<in>set new. symbol (entryOrder t) \<noteq> sy"
  shows "tradeQty sy new = 0"
  using assms by (induction new) (auto simp: tradeQty_def)

lemma unclosed_sumLots: "unclosed ps sy = sumLots (getPos ps sy)"
  by (simp add: unclosed_def sumLots_def)

lemma closeLots_nonneg:
  assumes "closeLots ord r pos ts = (r', pos', ts')" and "0 \<le> r"
  shows "0 \<le> r'"
  using assms
proof (induction ord r pos ts rule: closeLots_induct)
  case (stop ord r pos ts)
  then show ?case by (simp add: closeLots_stop)
next
  case (step ord r l rest ts)
  then show ?case by (simp add: closeLots_Cons)
qed

lemma conserve_matchStep:
  assumes "keyed (fst st)" and "status ord = ''Filled'' \<Longrightarrow> 0 \<le> qty ord"
  shows "unclosed (fst (matchStep st ord)) sy + 2 * tradeQty sy (snd (matchStep st ord)) =
         unclosed (fst st) sy + 2 * tradeQty sy (snd st) +
           (if status ord = ''Filled'' \<and> symbol ord = sy then qty ord else 0)"
proof (cases rule: matchStep_cases [of ord st])
  case skip
  then show ?thesis by simp
next
  case opens
  then show ?thesis by (auto simp: unclosed_sumLots)
next
  case scale
  then show ?thesis by (auto simp: unclosed_sumLots)
next
  case (close r' pos' ts')
  let ?pos = "getPos (fst st) (symbol ord)"
  have key: "\<forall>l\<in>set ?pos. symbol (lot_order l) = symbol ord"
    using assms by (simp add: keyed_def)
  show ?thesis
  proof (cases "symbol ord = sy")
    case True
    from closeLots_conserve [OF close(4) key]
    have "r' + sumLots pos' + 2 * tradeQty sy ts' = qty ord + sumLots ?pos + 2 * tradeQty sy (snd st)"
      using True by simp
    moreover from closeLots_nonneg [OF close(4) assms(2) [OF close(1)]] have "0 \<le> r'" .
    ultimately show ?thesis using close(1,5) True
      by (auto simp: unclosed_sumLots)
  next
    case False
    from closeLots_new [OF close(4)] obtain new where new: "ts' = snd st @ new"
      and all: "\<forall>t\<in>set new. \<exists>l\<in>set ?pos. \<exists>q. t = createTradeObject (entryCopy l q) (origOrder ord q)"
      by blast
    from all key False have "\<forall>t\<in>set new. symbol (entryOrder t) \<noteq> sy"
      by (fastforce simp: entryCopy_def)
    then have "tradeQty sy new = 0" by (rule tradeQty_other)
    with new close(5) False show ?thesis by (simp add: unclosed_sumLots)
  qed
qed

lemma matchLoop_Nil [simp]: "matchLoop st [] = st"
  by (simp add: matchLoop_def)

lemma matchLoop_Cons [simp]: "matchLoop st (ord # os) = matchLoop (matchStep st ord) os"
  by (simp add: matchLoop_def)

lemma matchLoop_invariant:
  assumes "I st" and "\<And>s ord. ord \<in> set os \<Longrightarrow> I s \<Longrightarrow> I (matchStep s ord)"
  shows "I (matchLoop st os)"
  using assms
proof (induction os arbitrary: st)
  case Nil
  then show ?case by simp
next
  case (Cons ord os)
  have "I (matchStep st ord)" by (rule Cons.prems(2)) (simp_all add: Cons.prems(1))
  then have "I (matchLoop (matchStep st ord) os)"
    by (rule Cons.IH) (simp add: Cons.prems(2))
  then show ?case by simp
qed

lemma keyed_matchLoop: "keyed (fst st) \<Longrightarrow> keyed (fst (matchLoop st os))"
  by (rule matchLoop_invariant [where I = "\<lambda>s. keyed (fst s)"]) (auto intro: keyed_matchStep)

lemma conserve_matchLoop:
  assumes "keyed (fst st)" and "\<forall>ord\<in>set os. status ord = ''Filled'' \<longrightarrow> 0 \<le> qty ord"
  shows "unclosed (fst (matchLoop st os)) sy + 2 * tradeQty sy (snd (matchLoop st os)) =
         unclosed (fst st) sy + 2 * tradeQty sy (snd st) +
           sum_list (map (\<lambda>ord. if status ord = ''Filled'' \<and> symbol ord = sy then qty ord else 0) os)"
  using assms
proof (induction os arbitrary: st)
  case Nil
  then show ?case by simp
next
  case (Cons ord os)
  from Cons.prems have k: "keyed (fst (matchStep st ord))" by (auto intro: keyed_matchStep)
  from Cons.prems have "status ord = ''Filled'' \<Longrightarrow> 0 \<le> qty ord" by simp
  from conserve_matchStep [OF Cons.prems(1) this, of sy] Cons.IH [OF k] Cons.prems(2)
  show ?case by simp
qed

lemma positive_matchStep:
  assumes "status ord = ''Filled'' \<Longrightarrow> 0 < qty ord" and "posLots (fst st)" and "\<forall>t\<in>set (snd st). 0 < quantity t"
  shows "posLots (fst (matchStep st ord)) \<and> (\<forall>t\<in>set (snd (matchStep st ord)). 0 < quantity t)"
proof (cases rule: matchStep_cases [of ord st])
  case skip
  with assms show ?thesis by simp
next
  case opens
  with assms show ?thesis by (auto simp: posLots_def)
next
  case scale
  with assms show ?thesis by (auto simp: posLots_def)
next
  case (close r' pos' ts')
  from assms(2) have "\<forall>l\<in>set (getPos (fst st) (symbol ord)). 0 < lot_qty l"
    by (simp add: posLots_def)
  from closeLots_positive [OF close(4) this assms(3)] close(5) assms(2)
  show ?thesis by (auto simp: posLots_def)
qed

lemma positive_matchLoop:
  assumes "\<forall>ord\<in>set os. status ord = ''Filled'' \<longrightarrow> 0 < qty ord" and "posLots (fst st)"
    and "\<forall>t\<in>set (snd st). 0 < quantity t"
  shows "posLots (fst (matchLoop st os)) \<and> (\<forall>t\<in>set (snd (matchLoop st os)). 0 < quantity t)"
proof (rule matchLoop_invariant [where I = "\<lambda>s. posLots (fst s) \<and> (\<forall>t\<in>set (snd s). 0 < quantity t)"])
  show "posLots (fst st) \<and> (\<forall>t\<in>set (snd st). 0 < quantity t)" using assms by simp
next
  fix s :: "positions \<times> trade list" and ord
  assume "ord \<in> set os" and "posLots (fst s) \<and> (\<forall>t\<in>set (snd s). 0 < quantity t)"
  with assms(1) show "posLots (fst (matchStep s ord)) \<and> (\<forall>t\<in>set (snd (matchStep s ord)). 0 < quantity t)"
    by (intro positive_matchStep) auto
qed

lemma closeLots_hd:
  assumes "closeLots ord r pos ts = (r', pos', ts')"
    and "\<forall>l\<in>set pos. lside (lot_order l) = s"
  shows "\<forall>l\<in>set pos'. lside (lot_order l) = s"
  using closeLots_pos [OF assms(1)] assms(2) by fastforce

lemma roundTrip_matchStep:
  assumes "ord \<in> S" and "fromOrders S (fst st)" and "sameSide (fst st)"
    and "\<forall>t\<in>set (snd st). roundTrip S t"
  shows "fromOrders S (fst (matchStep st ord)) \<and> sameSide (fst (matchStep st ord))
       \<and> (\<forall>t\<in>set (snd (matchStep st ord)). roundTrip S t)"
proof (cases rule: matchStep_cases [of ord st])
  case skip
  with assms show ?thesis by simp
next
  case opens
  with assms show ?thesis by (auto simp: fromOrders_def sameSide_def)
next
  case scale
  let ?pos = "getPos (fst st) (symbol ord)"
  from scale(2) have hd: "hd (?pos @ [newLot ord (qty ord)]) = hd ?pos" by simp
  from assms(3) have "\<forall>l\<in>set ?pos. lside (lot_order l) = lside (lot_order (hd ?pos))"
    by (simp add: sameSide_def)
  with scale(3) have "\<forall>l\<in>set (?pos @ [newLot ord (qty ord)]).
      lside (lot_order l) = lside (lot_order (hd (?pos @ [newLot ord (qty ord)])))"
    unfolding hd by (auto simp: lside_def)
  with scale(4) assms show ?thesis by (auto simp: fromOrders_def sameSide_def)
next
  case (close r' pos' ts')
  let ?pos = "getPos (fst st) (symbol ord)"
  let ?s = "lside (lot_order (hd ?pos))"
  from assms(2) have src: "\<forall>l\<in>set ?pos. lot_order l \<in> S" by (simp add: fromOrders_def)
  from assms(3) have same: "\<forall>l\<in>set ?pos. lside (lot_order l) = ?s" by (simp add: sameSide_def)
  from close(3) have diff: "?s \<noteq> lside ord" by (simp add: lside_def)
  from closeLots_pos [OF close(4)] src have pos': "\<forall>l\<in>set pos'. lot_order l \<in> S" by fastforce
  from closeLots_hd [OF close(4) same] have same': "\<forall>l\<in>set pos'. lside (lot_order l) = ?s" .
  from closeLots_new [OF close(4)] obtain new where new: "ts' = snd st @ new"
    and all: "\<forall>t\<in>set new. \<exists>l\<in>set ?pos. \<exists>q. t = createTradeObject (entryCopy l q) (origOrder ord q)"
    by blast
  have "\<forall>t\<in>set new. roundTrip S t"
  proof
    fix t assume "t \<in> set new"
    with all obtain l q where l: "l \<in> set ?pos" and t: "t = createTradeObject (entryCopy l q) (origOrder ord q)"
      by blast
    from l same diff have "lside (lot_order l) \<noteq> lside ord" by simp
    with l t src assms(1) show "roundTrip S t"
      unfolding roundTrip_def origOrder_def entryCopy_def origOrder_def by blast
  qed
  with new assms(4) have trs: "\<forall>t\<in>set ts'. roundTrip S t" by auto
  let ?new = "if r' > 0 then pos' @ [newLot ord r'] else pos'"
  have from': "\<forall>l\<in>set ?new. lot_order l \<in> S" using pos' assms(1) by auto
  have side': "\<forall>l\<in>set ?new. lside (lot_order l) = lside (lot_order (hd ?new))"
  proof (cases "r' > 0")
    case True
    with closeLots_leftover [OF close(4)] have "pos' = []" by simp
    with True show ?thesis by simp
  next
    case False
    show ?thesis
    proof (cases pos')
      case Nil
      with False show ?thesis by simp
    next
      case (Cons l ls)
      with same' have "lside (lot_order (hd pos')) = ?s" by simp
      with same' False show ?thesis by simp
    qed
  qed
  from close(5) from' side' trs assms(2,3) show ?thesis
    by (auto simp: fromOrders_def sameSide_def)
qed

lemma lotsBefore_mono: "lotsBefore T ps \<Longrightarrow> T \<le> T' \<Longrightarrow> lotsBefore T' ps"
  unfolding lotsBefore_def by (meson order_trans)

lemma time_matchStep:
  assumes "placingTime ord = Some T" and "lotsBefore T (fst st)" and "\<forall>t\<in>set (snd st). ordered t"
  shows "lotsBefore T (fst (matchStep st ord)) \<and> (\<forall>t\<in>set (snd (matchStep st ord)). ordered t)"
proof (cases rule: matchStep_cases [of ord st])
  case skip
  with assms show ?thesis by simp
next
  case opens
  with assms show ?thesis by (auto simp: lotsBefore_def)
next
  case scale
  with assms show ?thesis by (auto simp: lotsBefore_def)
next
  case (close r' pos' ts')
  let ?pos = "getPos (fst st) (symbol ord)"
  from assms(2) have before: "\<forall>l\<in>set ?pos. \<exists>a. placingTime (lot_order l) = Some a \<and> a \<le> T"
    by (simp add: lotsBefore_def)
  from closeLots_pos [OF close(4)] before
  have pos': "\<forall>l\<in>set pos'. \<exists>a. placingTime (lot_order l) = Some a \<and> a \<le> T" by fastforce
  from closeLots_new [OF close(4)] obtain new where new: "ts' = snd st @ new"
    and all: "\<forall>t\<in>set new. \<exists>l\<in>set ?pos. \<exists>q. t = createTradeObject (entryCopy l q) (origOrder ord q)"
    by blast
  have "\<forall>t\<in>set new. ordered t"
  proof
    fix t assume "t \<in> set new"
    with all obtain l q where l: "l \<in> set ?pos" and t: "t = createTradeObject (entryCopy l q) (origOrder ord q)"
      by blast
    from l before obtain a where "placingTime (lot_order l) = Some a" "a \<le> T" by blast
    with t assms(1) show "ordered t"
      by (simp add: ordered_def entryCopy_def origOrder_def)
  qed
  with new assms(3) have "\<forall>t\<in>set ts'. ordered t" by auto
  with close(5) pos' assms(1,2) show ?thesis by (auto simp: lotsBefore_def)
qed

lemma time_matchLoop:
  assumes "sorted_wrt timeLe os" and "\<forall>ord\<in>set os. placingTime ord \<noteq> None"
    and "\<forall>ord\<in>set os. lotsBefore (timeOf (placingTime ord)) (fst st)"
    and "\<forall>t\<in>set (snd st). ordered t"
  shows "\<forall>t\<in>set (snd (matchLoop st os)). ordered t"
  using assms
proof (induction os arbitrary: st)
  case Nil
  then show ?case by simp
next
  case (Cons ord os)
  from Cons.prems(2) obtain T where T: "placingTime ord = Some T" by auto
  with Cons.prems(3) have "lotsBefore T (fst st)" by (simp add: timeOf_def)
  from time_matchStep [OF T this Cons.prems(4)]
  have step: "lotsBefore T (fst (matchStep st ord))" "\<forall>t\<in>set (snd (matchStep st ord)). ordered t"
    by simp_all
  have "\<forall>x\<in>set os. lotsBefore (timeOf (placingTime x)) (fst (matchStep st ord))"
  proof
    fix x assume "x \<in> set os"
    with Cons.prems(1) have "timeLe ord x" by simp
    with T have "T \<le> timeOf (placingTime x)" by (simp add: timeLe_def timeOf_def)
    with step(1) show "lotsBefore (timeOf (placingTime x)) (fst (matchStep st ord))"
      by (rule lotsBefore_mono)
  qed
  with Cons.prems(1,2) step(2) have "\<forall>t\<in>set (snd (matchLoop (matchStep st ord) os)). ordered t"
    by (intro Cons.IH) simp_all
  then show ?case by simp
qed

text \<open>The trades of an iteration, and the queues it leaves.\<close>

lemma matchStep_emitted: "snd (matchStep st ord) = snd st @ emitted st ord"
proof (cases rule: matchStep_cases [of ord st])
  case (close r' pos' ts')
  from closeLots_new [OF close(4)] obtain new where "ts' = snd st @ new" by blast
  with close(5) show ?thesis by (simp add: emitted_def)
qed (simp_all add: emitted_def)

lemma matchStep_fifo:
  "length (emitted st ord) \<le> length (getPos (fst st) (symbol ord))
   \<and> map entryOrder (emitted st ord) =
       map2 origOrder (map lot_order (getPos (fst st) (symbol ord))) (map quantity (emitted st ord))
   \<and> map exitOrder (emitted st ord) = map (origOrder ord) (map quantity (emitted st ord))
   \<and> map trade_side (emitted st ord) =
       map (\<lambda>l. if toLowerCase (side (lot_order l)) = ''buy'' then ''LONG'' else ''SHORT'')
         (take (length (emitted st ord)) (getPos (fst st) (symbol ord)))
   \<and> (\<exists>k opened. map lot_order (getPos (fst (matchStep st ord)) (symbol ord))
          = drop k (map lot_order (getPos (fst st) (symbol ord))) @ opened
        \<and> k \<le> length (emitted st ord) \<and> (opened = [] \<or> opened = [ord]))"
proof (cases rule: matchStep_cases [of ord st])
  case skip
  then have "emitted st ord = []" by (simp add: emitted_def)
  with skip show ?thesis by (simp add: exI [of _ 0])
next
  case opens
  then have "emitted st ord = []" by (simp add: emitted_def)
  with opens show ?thesis by (simp add: exI [of _ 0])
next
  case scale
  then have "emitted st ord = []" by (simp add: emitted_def)
  with scale show ?thesis by (simp add: exI [of _ 0])
next
  case (close r' pos' ts')
  let ?pos = "getPos (fst st) (symbol ord)"
  from closeLots_fifo [OF close(4)] obtain new k where new: "ts' = snd st @ new"
    "length new \<le> length ?pos" "k \<le> length new"
    "map entryOrder new = map2 origOrder (map lot_order ?pos) (map quantity new)"
    "map exitOrder new = map (origOrder ord) (map quantity new)"
    "map trade_side new =
       map (\<lambda>l. if toLowerCase (side (lot_order l)) = ''buy'' then ''LONG'' else ''SHORT'')
         (take (length new) ?pos)"
    "map lot_order pos' = drop k (map lot_order ?pos)"
    by blast
  from new(1) close(5) have e: "emitted st ord = new" by (simp add: emitted_def)
  have "\<exists>k opened. map lot_order (getPos (fst (matchStep st ord)) (symbol ord))
          = drop k (map lot_order ?pos) @ opened
        \<and> k \<le> length new \<and> (opened = [] \<or> opened = [ord])"
  proof (cases "r' > 0")
    case True
    with close(5) new(3,7) show ?thesis
      by (intro exI [of _ k] exI [of _ "[ord]"]) simp
  next
    case False
    with close(5) new(3,7) show ?thesis
      by (intro exI [of _ k] exI [of _ "[]"]) simp
  qed
  with new(2,4,5,6) show ?thesis unfolding e by simp
qed

lemma matchStep_other:
  "getPos (fst (matchStep st ord)) sy =
     (if sy = symbol ord then getPos (fst (matchStep st ord)) (symbol ord) else getPos (fst st) sy)"
  by (cases rule: matchStep_cases [of ord st]) simp_all

lemma matchLoop_snoc: "matchLoop st (os @ [ord]) = matchStep (matchLoop st os) ord"
  by (simp add: matchLoop_def)

lemma matchLoop_emitted:
  "snd (matchLoop st os) =
     snd st @ concat (map (\<lambda>i. emitted (matchLoop st (take i os)) (os ! i)) [0..<length os])"
proof (induction os rule: rev_induct)
  case Nil
  show ?case by simp
next
  case (snoc x os)
  let ?f = "\<lambda>i. emitted (matchLoop st (take i (os @ [x]))) ((os @ [x]) ! i)"
  let ?g = "\<lambda>i. emitted (matchLoop st (take i os)) (os ! i)"
  have eq: "map ?f [0..<length os] = map ?g [0..<length os]"
    by (rule map_cong) (simp_all add: nth_append)
  have last: "?f (length os) = emitted (matchLoop st os) x" by simp
  have "concat (map ?f [0..<length (os @ [x])]) = concat (map ?f [0..<length os]) @ ?f (length os)"
    by (simp only: length_append_singleton upt_Suc_append [OF le0] map_append concat_append
          list.map concat.simps append_Nil2)
  also have "\<dots> = concat (map ?g [0..<length os]) @ emitted (matchLoop st os) x"
    by (simp only: eq last)
  finally have "snd st @ concat (map ?f [0..<length (os @ [x])])
      = snd (matchLoop st os) @ emitted (matchLoop st os) x"
    by (simp only: snoc append_assoc)
  then show ?case
    by (simp only: matchLoop_snoc matchStep_emitted)
qed

text \<open>
  The queues that the loop reaches from the empty state: every lot keeps an order that was
  processed and all lots of a queue share one side, so that a closing order is of the other
  side than every lot it closes.
\<close>

lemma queues_matchLoop:
  assumes "set os \<subseteq> S" and "fromOrders S (fst st)" and "sameSide (fst st)"
    and "\<forall>t\<in>set (snd st). roundTrip S t"
  shows "fromOrders S (fst (matchLoop st os)) \<and> sameSide (fst (matchLoop st os))
       \<and> (\<forall>t\<in>set (snd (matchLoop st os)). roundTrip S t)"
proof (rule matchLoop_invariant [where I = "\<lambda>s. fromOrders S (fst s) \<and> sameSide (fst s)
     \<and> (\<forall>t\<in>set (snd s). roundTrip S t)"])
  show "fromOrders S (fst st) \<and> sameSide (fst st) \<and> (\<forall>t\<in>set (snd st). roundTrip S t)"
    using assms by simp
next
  fix s :: "positions \<times> trade list" and ord
  assume "ord \<in> set os"
    and "fromOrders S (fst s) \<and> sameSide (fst s) \<and> (\<forall>t\<in>set (snd s). roundTrip S t)"
  with assms(1) show "fromOrders S (fst (matchStep s ord)) \<and> sameSide (fst (matchStep s ord))
     \<and> (\<forall>t\<in>set (snd (matchStep s ord)). roundTrip S t)"
    by (intro roundTrip_matchStep) auto
qed

lemma stateBefore_queues:
  "fromOrders (set (take i (validOrders orders))) (fst (stateBefore orders i))"
  "sameSide (fst (stateBefore orders i))"
  "keyed (fst (stateBefore orders i))"
proof -
  from queues_matchLoop [of "take i (validOrders orders)" "set (take i (validOrders orders))" "(Map.empty, [])"]
  show "fromOrders (set (take i (validOrders orders))) (fst (stateBefore orders i))"
    "sameSide (fst (stateBefore orders i))"
    by (simp_all add: stateBefore_def fromOrders_def sameSide_def)
  from keyed_matchLoop [of "(Map.empty, [])" "take i (validOrders orders)"]
  show "keyed (fst (stateBefore orders i))"
    by (simp add: stateBefore_def keyed_def)
qed

lemma emitted_nth:
  assumes "sameSide (fst st)" and "j < length (emitted st ord)"
  shows "j < length (getPos (fst st) (symbol ord))
       \<and> entryOrder (emitted st ord ! j)
           = origOrder (lot_order (getPos (fst st) (symbol ord) ! j)) (quantity (emitted st ord ! j))
       \<and> exitOrder (emitted st ord ! j) = origOrder ord (quantity (emitted st ord ! j))
       \<and> trade_side (emitted st ord ! j)
           = (if toLowerCase (side (lot_order (getPos (fst st) (symbol ord) ! j))) = ''buy''
              then ''LONG'' else ''SHORT'')
       \<and> toLowerCase (side ord) \<noteq> toLowerCase (side (lot_order (getPos (fst st) (symbol ord) ! j)))"
proof -
  let ?q = "getPos (fst st) (symbol ord)" and ?new = "emitted st ord"
  from matchStep_fifo [of st ord] have len: "length ?new \<le> length ?q"
    and en: "map entryOrder ?new = map2 origOrder (map lot_order ?q) (map quantity ?new)"
    and ex: "map exitOrder ?new = map (origOrder ord) (map quantity ?new)"
    and sd: "map trade_side ?new =
       map (\<lambda>l. if toLowerCase (side (lot_order l)) = ''buy'' then ''LONG'' else ''SHORT'')
         (take (length ?new) ?q)"
    by blast+
  from len assms(2) have j: "j < length ?q" by simp
  from arg_cong [OF en, of "\<lambda>xs. xs ! j"] assms(2) j
  have 1: "entryOrder (?new ! j) = origOrder (lot_order (?q ! j)) (quantity (?new ! j))" by simp
  from arg_cong [OF ex, of "\<lambda>xs. xs ! j"] assms(2)
  have 2: "exitOrder (?new ! j) = origOrder ord (quantity (?new ! j))" by simp
  from arg_cong [OF sd, of "\<lambda>xs. xs ! j"] assms(2) j
  have 3: "trade_side (?new ! j)
           = (if toLowerCase (side (lot_order (?q ! j))) = ''buy'' then ''LONG'' else ''SHORT'')"
    by simp
  have 4: "toLowerCase (side ord) \<noteq> toLowerCase (side (lot_order (?q ! j)))"
  proof (cases rule: matchStep_cases [of ord st])
    case (close r' pos' ts')
    from assms(1) j have "lside (lot_order (?q ! j)) = lside (lot_order (hd ?q))"
      by (simp add: sameSide_def)
    with close(3) show ?thesis by (simp add: lside_def)
  qed (use assms(2) in \<open>simp_all add: emitted_def\<close>)
  from j 1 2 3 4 show ?thesis by simp
qed

lemma matchTrades_emittedAt:
  "matchTrades orders = concat (map (emittedAt orders) [0..<length (validOrders orders)])"
  using matchLoop_emitted [of "(Map.empty, [])" "validOrders orders"]
  by (simp add: matchTrades_def matchState_def stateBefore_def emittedAt_def [abs_def])

lemma trade_of_lot:
  assumes "t \<in> set (matchTrades orders)"
  shows "\<exists>i j. i < length (validOrders orders) \<and> j < length (emittedAt orders i)
      \<and> j < length (queueBefore orders i) \<and> t = emittedAt orders i ! j
      \<and> entryOrder t = origOrder (lot_order (queueBefore orders i ! j)) (quantity t)
      \<and> exitOrder t = origOrder (validOrders orders ! i) (quantity t)
      \<and> (trade_side t = ''LONG'') = (toLowerCase (side (lot_order (queueBefore orders i ! j))) = ''buy'')
      \<and> (trade_side t = ''SHORT'') = (toLowerCase (side (lot_order (queueBefore orders i ! j))) \<noteq> ''buy'')
      \<and> toLowerCase (side (validOrders orders ! i))
           \<noteq> toLowerCase (side (lot_order (queueBefore orders i ! j)))
      \<and> lot_order (queueBefore orders i ! j) \<in> set (take i (validOrders orders))"
proof -
  from assms obtain i where i: "i < length (validOrders orders)" and "t \<in> set (emittedAt orders i)"
    by (auto simp: matchTrades_emittedAt)
  then obtain j where j: "j < length (emittedAt orders i)" and t: "t = emittedAt orders i ! j"
    by (auto simp: in_set_conv_nth)
  from j have "j < length (emitted (stateBefore orders i) (validOrders orders ! i))"
    by (simp add: emittedAt_def)
  from emitted_nth [OF stateBefore_queues(2) this]
  have e: "j < length (queueBefore orders i)"
    "entryOrder t = origOrder (lot_order (queueBefore orders i ! j)) (quantity t)"
    "exitOrder t = origOrder (validOrders orders ! i) (quantity t)"
    "trade_side t = (if toLowerCase (side (lot_order (queueBefore orders i ! j))) = ''buy''
              then ''LONG'' else ''SHORT'')"
    "toLowerCase (side (validOrders orders ! i))
           \<noteq> toLowerCase (side (lot_order (queueBefore orders i ! j)))"
    unfolding t by (simp_all add: emittedAt_def queueBefore_def)
  from e(1) have "queueBefore orders i ! j \<in> set (getPos (fst (stateBefore orders i)) (symbol (validOrders orders ! i)))"
    by (simp add: queueBefore_def)
  with stateBefore_queues(1) [of i orders]
  have src: "lot_order (queueBefore orders i ! j) \<in> set (take i (validOrders orders))"
    unfolding fromOrders_def by blast
  from e(4) have "(trade_side t = ''LONG'') = (toLowerCase (side (lot_order (queueBefore orders i ! j))) = ''buy'')"
    "(trade_side t = ''SHORT'') = (toLowerCase (side (lot_order (queueBefore orders i ! j))) \<noteq> ''buy'')"
    by simp_all
  with i j t e(1,2,3,5) src show ?thesis by blast
qed

subsection \<open>The matcher: claims C2, C3, C4, C5 and C10\<close>

lemmas matcher_eval = matchTrades_def matchState_def matchLoop_def validOrders_def sortOrders_def
  isValidOrder_def compareOrders_def timeOf_def numOf_def matchStep_def getPos_def closeLots.simps
  createTradeObject_def toLowerCase_def toLowerChar_def isUpper_def Let_def unclosed_def
  char_of_eq_iff

lemmas stream_eval = interleavedStream_def filledOrder_def matcher_eval

text \<open>
  Claim C2. On one symbol, a filled entry order Sell 5 @ 100 followed by the filled exit orders
  Buy 2 @ 101, Buy 2 @ 102 and Buy 1 @ 103, with strictly increasing placing times, gives
  exactly three trades, all \<open>SHORT\<close>, with quantities 2, 2, 1 and entry price 100, and the
  queue of the symbol is left empty.
\<close>

theorem fifo_reference_stream:
  assumes "t1 < t2" and "t2 < t3" and "t3 < t4"
  shows "map trade_side (matchTrades (referenceStream sy t1 t2 t3 t4)) = [''SHORT'', ''SHORT'', ''SHORT'']
       \<and> map quantity (matchTrades (referenceStream sy t1 t2 t3 t4)) = [2, 2, 1]
       \<and> map entryPrice (matchTrades (referenceStream sy t1 t2 t3 t4)) = [Some 100, Some 100, Some 100]
       \<and> getPos (fst (matchState (referenceStream sy t1 t2 t3 t4))) sy = []
       \<and> unclosed (fst (matchState (referenceStream sy t1 t2 t3 t4))) sy = 0"
  using assms by (simp add: referenceStream_def filledOrder_def matcher_eval)

text \<open>The reference stream at concrete times.\<close>

theorem fifo_reference_stream_witness:
  "(1000::int) < 2000 \<and> (2000::int) < 3000 \<and> (3000::int) < 4000
   \<and> map trade_side (matchTrades (referenceStream ''ES1!'' 1000 2000 3000 4000)) = [''SHORT'', ''SHORT'', ''SHORT'']
   \<and> map quantity (matchTrades (referenceStream ''ES1!'' 1000 2000 3000 4000)) = [2, 2, 1]
   \<and> map entryPrice (matchTrades (referenceStream ''ES1!'' 1000 2000 3000 4000)) = [Some 100, Some 100, Some 100]
   \<and> getPos (fst (matchState (referenceStream ''ES1!'' 1000 2000 3000 4000))) ''ES1!'' = []
   \<and> unclosed (fst (matchState (referenceStream ''ES1!'' 1000 2000 3000 4000))) ''ES1!'' = 0"
  using fifo_reference_stream [of 1000 2000 3000 4000 "''ES1!''"] by simp

lemma valid_participates: "set (validOrders orders) = {ord \<in> set orders. isValidOrder ord}"
  by (simp add: validOrders_def set_sortOrders)

lemma interleaved_third:
  "matchTrades interleavedStream ! 2 \<in> set (matchTrades interleavedStream)"
  "trade_side (matchTrades interleavedStream ! 2) = ''SHORT''"
  "quantity (matchTrades interleavedStream ! 2) = 3"
  "trade_id (matchTrades interleavedStream ! 2) = ''trade_E1_X2''"
  by (simp_all add: stream_eval)

text \<open>
  Claim C3. Every trade that the matcher returns is emitted while some qualifying order \<open>x\<close>
  is processed, and closes a lot \<open>l\<close> of the queue that \<open>x\<close> meets: its entry order is the
  quantity-adjusted copy of the order kept on \<open>l\<close>, which is an order processed before \<open>x\<close>,
  its exit order is the copy of \<open>x\<close>, which is of the other side, and the trade is \<open>LONG\<close>
  exactly when the order kept on \<open>l\<close> is a buy and \<open>SHORT\<close> otherwise. The trades of the
  matcher are the trades of its iterations, in order. In any state of the loop, the trades that
  an iteration emits close the first lots of the queue in queue order: the \<open>n\<close>-th of them
  takes its entry order and its side from the order of the \<open>n\<close>-th lot. The iteration leaves on
  every lot the order it held: the orders of the queue afterwards are those before, without the
  \<open>k\<close> lots closed entirely at the front and with at most the processed order itself at the end,
  and the queues of the other symbols are untouched. So the order on a lot is the order that
  opened it, however many orders stand between an entry and its exits.
\<close>

theorem side_attribution:
  "(\<forall>t\<in>set (matchTrades orders). \<exists>i j.
        i < length (validOrders orders) \<and> j < length (emittedAt orders i)
      \<and> j < length (queueBefore orders i) \<and> t = emittedAt orders i ! j
      \<and> entryOrder t = origOrder (lot_order (queueBefore orders i ! j)) (quantity t)
      \<and> exitOrder t = origOrder (validOrders orders ! i) (quantity t)
      \<and> (trade_side t = ''LONG'') = (toLowerCase (side (lot_order (queueBefore orders i ! j))) = ''buy'')
      \<and> (trade_side t = ''SHORT'') = (toLowerCase (side (lot_order (queueBefore orders i ! j))) \<noteq> ''buy'')
      \<and> toLowerCase (side (validOrders orders ! i))
           \<noteq> toLowerCase (side (lot_order (queueBefore orders i ! j)))
      \<and> lot_order (queueBefore orders i ! j) \<in> set (take i (validOrders orders)))
   \<and> matchTrades orders = concat (map (emittedAt orders) [0..<length (validOrders orders)])
   \<and> snd (matchStep st ord) = snd st @ emitted st ord
   \<and> length (emitted st ord) \<le> length (getPos (fst st) (symbol ord))
   \<and> map entryOrder (emitted st ord) =
       map2 origOrder (map lot_order (getPos (fst st) (symbol ord))) (map quantity (emitted st ord))
   \<and> map exitOrder (emitted st ord) = map (origOrder ord) (map quantity (emitted st ord))
   \<and> map trade_side (emitted st ord) =
       map (\<lambda>l. if toLowerCase (side (lot_order l)) = ''buy'' then ''LONG'' else ''SHORT'')
         (take (length (emitted st ord)) (getPos (fst st) (symbol ord)))
   \<and> (\<exists>k opened. map lot_order (getPos (fst (matchStep st ord)) (symbol ord))
          = drop k (map lot_order (getPos (fst st) (symbol ord))) @ opened
        \<and> k \<le> length (emitted st ord) \<and> (opened = [] \<or> opened = [ord]))
   \<and> getPos (fst (matchStep st ord)) sy =
       (if sy = symbol ord then getPos (fst (matchStep st ord)) (symbol ord) else getPos (fst st) sy)"
  using trade_of_lot [of _ orders] matchTrades_emittedAt [of orders]
    matchStep_emitted [of st ord] matchStep_fifo [of st ord] matchStep_other [of st ord sy]
  by blast

lemma interleaved_step:
  "emittedAt interleavedStream 4 = [matchTrades interleavedStream ! 2]"
  "map lot_order (queueBefore interleavedStream 4) = [interleavedStream ! 0]"
  "map lot_order (getPos (fst (matchStep (stateBefore interleavedStream 4) (interleavedStream ! 4)))
       (symbol (interleavedStream ! 4))) = [interleavedStream ! 4]"
  "quantity (matchTrades interleavedStream ! 2) = 3"
  "validOrders interleavedStream = interleavedStream"
  "side (interleavedStream ! 0) = ''Sell''"
  "emitted (stateBefore interleavedStream 4) (interleavedStream ! 4) = emittedAt interleavedStream 4"
  "getPos (fst (stateBefore interleavedStream 4)) (symbol (interleavedStream ! 4)) = queueBefore interleavedStream 4"
  by (simp_all add: emittedAt_def queueBefore_def emitted_def stateBefore_def stream_eval)

text \<open>
  The fifth order of the interleaved stream, Buy 4, meets the lot of the opening Sell 5 after
  orders of another symbol and an earlier partial exit: the trade it emits has the Sell as its
  entry order and is \<open>SHORT\<close>, and the queue then holds the Buy itself.
\<close>

theorem side_attribution_witness:
  "matchTrades interleavedStream ! 2 \<in> set (matchTrades interleavedStream)
   \<and> (\<exists>i j. i < length (validOrders interleavedStream) \<and> j < length (queueBefore interleavedStream i)
        \<and> matchTrades interleavedStream ! 2 = emittedAt interleavedStream i ! j
        \<and> entryOrder (matchTrades interleavedStream ! 2)
            = origOrder (lot_order (queueBefore interleavedStream i ! j)) (quantity (matchTrades interleavedStream ! 2))
        \<and> (trade_side (matchTrades interleavedStream ! 2) = ''LONG'')
            = (toLowerCase (side (lot_order (queueBefore interleavedStream i ! j))) = ''buy''))
   \<and> emittedAt interleavedStream 4 = [matchTrades interleavedStream ! 2]
   \<and> map lot_order (queueBefore interleavedStream 4) = [interleavedStream ! 0]
   \<and> entryOrder (matchTrades interleavedStream ! 2) = origOrder (interleavedStream ! 0) 3
   \<and> exitOrder (matchTrades interleavedStream ! 2) = origOrder (interleavedStream ! 4) 3
   \<and> side (interleavedStream ! 0) = ''Sell''
   \<and> trade_side (matchTrades interleavedStream ! 2) = ''SHORT''
   \<and> trade_id (matchTrades interleavedStream ! 2) = ''trade_E1_X2''
   \<and> map lot_order (getPos (fst (matchStep (stateBefore interleavedStream 4) (interleavedStream ! 4)))
       (symbol (interleavedStream ! 4))) = [interleavedStream ! 4]"
proof -
  note e = interleaved_step
  note inst = side_attribution [of interleavedStream "stateBefore interleavedStream 4" "interleavedStream ! 4"]
  note m = interleaved_third(1)
  from inst have "\<forall>t\<in>set (matchTrades interleavedStream). \<exists>i j.
        i < length (validOrders interleavedStream) \<and> j < length (emittedAt interleavedStream i)
      \<and> j < length (queueBefore interleavedStream i) \<and> t = emittedAt interleavedStream i ! j
      \<and> entryOrder t = origOrder (lot_order (queueBefore interleavedStream i ! j)) (quantity t)
      \<and> exitOrder t = origOrder (validOrders interleavedStream ! i) (quantity t)
      \<and> (trade_side t = ''LONG'') = (toLowerCase (side (lot_order (queueBefore interleavedStream i ! j))) = ''buy'')
      \<and> (trade_side t = ''SHORT'') = (toLowerCase (side (lot_order (queueBefore interleavedStream i ! j))) \<noteq> ''buy'')
      \<and> toLowerCase (side (validOrders interleavedStream ! i))
           \<noteq> toLowerCase (side (lot_order (queueBefore interleavedStream i ! j)))
      \<and> lot_order (queueBefore interleavedStream i ! j) \<in> set (take i (validOrders interleavedStream))"
    by (rule conjunct1)
  from bspec [OF this m]
  have a: "\<exists>i j. i < length (validOrders interleavedStream) \<and> j < length (queueBefore interleavedStream i)
        \<and> matchTrades interleavedStream ! 2 = emittedAt interleavedStream i ! j
        \<and> entryOrder (matchTrades interleavedStream ! 2)
            = origOrder (lot_order (queueBefore interleavedStream i ! j)) (quantity (matchTrades interleavedStream ! 2))
        \<and> (trade_side (matchTrades interleavedStream ! 2) = ''LONG'')
            = (toLowerCase (side (lot_order (queueBefore interleavedStream i ! j))) = ''buy'')"
    by blast
  from inst
  have "map entryOrder (emitted (stateBefore interleavedStream 4) (interleavedStream ! 4)) =
       map2 origOrder (map lot_order (getPos (fst (stateBefore interleavedStream 4)) (symbol (interleavedStream ! 4))))
         (map quantity (emitted (stateBefore interleavedStream 4) (interleavedStream ! 4)))"
    and "map exitOrder (emitted (stateBefore interleavedStream 4) (interleavedStream ! 4))
       = map (origOrder (interleavedStream ! 4)) (map quantity (emitted (stateBefore interleavedStream 4) (interleavedStream ! 4)))"
    by blast+
  then have b: "entryOrder (matchTrades interleavedStream ! 2) = origOrder (interleavedStream ! 0) 3"
    "exitOrder (matchTrades interleavedStream ! 2) = origOrder (interleavedStream ! 4) 3"
    unfolding e(7) e(8) e(1) e(2) by (simp_all add: e(4))
  from m a b e(1,2,3,6) interleaved_third(2,4) show ?thesis by simp
qed

lemma matchStep_skip: "status ord \<noteq> ''Filled'' \<Longrightarrow> matchStep st ord = st"
  by (simp add: matchStep_def Let_def)

lemma matchLoop_filled: "matchLoop st os = matchLoop st (filter (\<lambda>ord. status ord = ''Filled'') os)"
  by (induction os arbitrary: st) (simp_all add: matchStep_skip)

lemma filter_participates:
  "filter (\<lambda>ord. status ord = ''Filled'') (filter isValidOrder orders) = filter participates orders"
  "filter isValidOrder (filter participates orders) = filter participates orders"
  "filter (\<lambda>ord. status ord = ''Filled'') (filter participates orders) = filter participates orders"
  by (induction orders) (auto simp: participates_def)

text \<open>
  The orders that take part are those that pass the truthiness filter and are \<open>Filled\<close>: the
  matcher ends in the same queues and trades when every other order is removed from its input.
\<close>

lemma matchState_participates: "matchState orders = matchState (filter participates orders)"
proof -
  have "matchState orders
      = matchLoop (Map.empty, []) (filter (\<lambda>ord. status ord = ''Filled'') (validOrders orders))"
    unfolding matchState_def by (rule matchLoop_filled)
  also have "\<dots> = matchLoop (Map.empty, []) (sortOrders (filter participates orders))"
    by (simp only: validOrders_def filter_sortOrders filter_participates)
  also have "\<dots> = matchLoop (Map.empty, []) (validOrders (filter participates orders))"
    by (simp only: validOrders_def filter_participates)
  finally show ?thesis by (simp add: matchState_def)
qed

text \<open>
  Claim C4. An order with fill price 0 has a non-null fill price, a non-null placing time and
  status \<open>Filled\<close>, yet the truthiness test of the filter drops it: the Buy at price 0 never
  reaches the queue, no trade is produced, and the later Sell is left as an open lot.
\<close>

theorem zero_price_order_dropped:
  "fillPrice (zeroPriceStream ! 0) = Some 0 \<and> placingTime (zeroPriceStream ! 0) = Some 1000
   \<and> status (zeroPriceStream ! 0) = ''Filled''
   \<and> validOrders zeroPriceStream = [zeroPriceStream ! 1]
   \<and> matchTrades zeroPriceStream = []
   \<and> map lot_order (getPos (fst (matchState zeroPriceStream)) ''ES1!'') = [zeroPriceStream ! 1]"
  by (simp add: zeroPriceStream_def filledOrder_def matcher_eval)

text \<open>
  Claim C5. For every list of orders, the qualifying orders are processed in the order of the
  comparator (placing time ascending, ties by fill price ascending), and every emitted trade
  has an entry time and an exit time with the entry time not after the exit time.
\<close>

theorem entry_before_exit:
  "sorted_wrt (\<lambda>a b. compareOrders a b \<le> 0) (validOrders orders)
   \<and> (\<forall>t\<in>set (matchTrades orders). \<exists>a b. entryTime t = Some a \<and> exitTime t = Some b \<and> a \<le> b)"
proof
  show "sorted_wrt (\<lambda>a b. compareOrders a b \<le> 0) (validOrders orders)"
    using sorted_cmp_sortOrders [of "filter isValidOrder orders"]
    by (simp add: validOrders_def cmpLe_def [abs_def])
  have "\<forall>t\<in>set (snd (matchLoop (Map.empty, []) (validOrders orders))). ordered t"
  proof (rule time_matchLoop)
    show "sorted_wrt timeLe (validOrders orders)"
      by (simp add: validOrders_def sorted_sortOrders)
    show "\<forall>ord\<in>set (validOrders orders). placingTime ord \<noteq> None"
      by (simp add: valid_participates isValidOrder_def)
    show "\<forall>ord\<in>set (validOrders orders). lotsBefore (timeOf (placingTime ord)) (fst (Map.empty, []))"
      by (simp add: lotsBefore_def)
    show "\<forall>t\<in>set (snd (Map.empty, [])). ordered t" by simp
  qed
  then show "\<forall>t\<in>set (matchTrades orders). \<exists>a b. entryTime t = Some a \<and> exitTime t = Some b \<and> a \<le> b"
    by (simp add: matchTrades_def matchState_def ordered_def)
qed

lemma reversed_third:
  "matchTrades (rev interleavedStream) ! 2 \<in> set (matchTrades (rev interleavedStream))"
  "entryTime (matchTrades (rev interleavedStream) ! 2) = Some 1000"
  "exitTime (matchTrades (rev interleavedStream) ! 2) = Some 3000"
  by (simp_all add: stream_eval)

text \<open>The same orders handed over in reverse order.\<close>

theorem entry_before_exit_witness:
  "matchTrades (rev interleavedStream) ! 2 \<in> set (matchTrades (rev interleavedStream))
   \<and> (\<exists>a b. entryTime (matchTrades (rev interleavedStream) ! 2) = Some a
        \<and> exitTime (matchTrades (rev interleavedStream) ! 2) = Some b \<and> a \<le> b)
   \<and> entryTime (matchTrades (rev interleavedStream) ! 2) = Some 1000
   \<and> exitTime (matchTrades (rev interleavedStream) ! 2) = Some 3000"
proof -
  note m = reversed_third(1)
  from entry_before_exit [of "rev interleavedStream", THEN conjunct2] m
  have "\<exists>a b. entryTime (matchTrades (rev interleavedStream) ! 2) = Some a
        \<and> exitTime (matchTrades (rev interleavedStream) ! 2) = Some b \<and> a \<le> b"
    by (rule bspec)
  with m reversed_third(2,3) show ?thesis by blast
qed

lemma orderQty_valid:
  "sum_list (map (\<lambda>ord. if status ord = ''Filled'' \<and> symbol ord = sy then qty ord else 0) (validOrders orders))
     = orderQty sy orders"
proof -
  have "sum_list (map (\<lambda>ord. if status ord = ''Filled'' \<and> symbol ord = sy then qty ord else 0)
          (filter isValidOrder orders)) = orderQty sy orders"
    by (induction orders) (auto simp: orderQty_def participates_def)
  then show ?thesis by (simp add: validOrders_def sum_sortOrders)
qed

text \<open>
  Claim C10, as stated, fails: the matcher does not test the quantities. A Buy 2 followed by a
  Sell of quantity -3 gives no trade and leaves the lot of 2 open, so the quantities of the
  participating orders add up to -1 and not to 2 * 0 + 2; a Sell of quantity -2 followed by a
  Buy 1 puts a lot of quantity -2 into the queue and gives a trade of quantity -2.
\<close>

theorem negative_quantity_counterexample:
  "participates (negativeQtyOrders ! 0) \<and> participates (negativeQtyOrders ! 1)
   \<and> orderQty ''ES1!'' negativeQtyOrders = - 1
   \<and> matchTrades negativeQtyOrders = []
   \<and> tradeQty ''ES1!'' (matchTrades negativeQtyOrders) = 0
   \<and> unclosed (fst (matchState negativeQtyOrders)) ''ES1!'' = 2
   \<and> orderQty ''ES1!'' negativeQtyOrders
       \<noteq> 2 * tradeQty ''ES1!'' (matchTrades negativeQtyOrders)
           + unclosed (fst (matchState negativeQtyOrders)) ''ES1!''
   \<and> map quantity (matchTrades negativeLotOrders) = [- 2]
   \<and> map lot_qty (getPos (fst (matchLoop (Map.empty, []) (take 1 (validOrders negativeLotOrders)))) ''ES1!'')
       = [- 2]"
  by (simp add: negativeQtyOrders_def negativeLotOrders_def ibkrOrder_def orderQty_def tradeQty_def
        participates_def matcher_eval)

text \<open>
  Claim C10, amended. When the participating orders have positive quantities, then for every
  symbol the quantities of its participating orders add up to twice the quantities of its
  trades plus the quantity left open in its queue; every trade has a positive quantity; and
  after every prefix of the processed orders every lot in every queue has a positive quantity.
\<close>

theorem quantity_conservation:
  assumes "\<forall>ord\<in>set orders. participates ord \<longrightarrow> 0 < qty ord"
  shows "orderQty sy orders = 2 * tradeQty sy (matchTrades orders) + unclosed (fst (matchState orders)) sy
       \<and> (\<forall>t\<in>set (matchTrades orders). 0 < quantity t)
       \<and> (\<forall>n s. \<forall>l\<in>set (getPos (fst (matchLoop (Map.empty, []) (take n (validOrders orders)))) s).
             0 < lot_qty l)"
proof (intro conjI allI)
  have pos: "\<forall>ord\<in>set (validOrders orders). status ord = ''Filled'' \<longrightarrow> 0 < qty ord"
    using assms by (auto simp: valid_participates participates_def)
  then have "\<forall>ord\<in>set (validOrders orders). status ord = ''Filled'' \<longrightarrow> 0 \<le> qty ord"
    by fastforce
  from conserve_matchLoop [of "(Map.empty, [])", OF _ this, of sy]
  show "orderQty sy orders = 2 * tradeQty sy (matchTrades orders) + unclosed (fst (matchState orders)) sy"
    by (simp add: keyed_def matchTrades_def matchState_def orderQty_valid unclosed_def tradeQty_def)
  from positive_matchLoop [of "validOrders orders" "(Map.empty, [])", OF pos]
  show "\<forall>t\<in>set (matchTrades orders). 0 < quantity t"
    by (simp add: posLots_def matchTrades_def matchState_def)
  fix n s
  from pos have "\<forall>ord\<in>set (take n (validOrders orders)). status ord = ''Filled'' \<longrightarrow> 0 < qty ord"
    by (meson in_set_takeD)
  from positive_matchLoop [of "take n (validOrders orders)" "(Map.empty, [])", OF this]
  show "\<forall>l\<in>set (getPos (fst (matchLoop (Map.empty, []) (take n (validOrders orders)))) s). 0 < lot_qty l"
    by (simp add: posLots_def)
qed

lemma interleaved_positive: "\<forall>ord\<in>set interleavedStream. participates ord \<longrightarrow> 0 < qty ord"
  by (simp add: interleavedStream_def filledOrder_def)

lemma interleaved_totals:
  "orderQty ''NQ1!'' interleavedStream = 4"
  "tradeQty ''NQ1!'' (matchTrades interleavedStream) = 1"
  "unclosed (fst (matchState interleavedStream)) ''NQ1!'' = 2"
  "orderQty ''CME_MINI:ES1!'' interleavedStream = 12"
  "tradeQty ''CME_MINI:ES1!'' (matchTrades interleavedStream) = 6"
  "unclosed (fst (matchState interleavedStream)) ''CME_MINI:ES1!'' = 0"
  by (simp_all add: stream_eval orderQty_def tradeQty_def participates_def)

text \<open>Conservation on the interleaved stream, for the symbol that stays open.\<close>

theorem quantity_conservation_witness:
  "orderQty ''NQ1!'' interleavedStream
     = 2 * tradeQty ''NQ1!'' (matchTrades interleavedStream) + unclosed (fst (matchState interleavedStream)) ''NQ1!''
   \<and> orderQty ''NQ1!'' interleavedStream = 4
   \<and> tradeQty ''NQ1!'' (matchTrades interleavedStream) = 1
   \<and> unclosed (fst (matchState interleavedStream)) ''NQ1!'' = 2
   \<and> 0 < quantity (matchTrades interleavedStream ! 2)"
proof -
  from quantity_conservation [OF interleaved_positive, of "''NQ1!''"] interleaved_third(1)
  have "orderQty ''NQ1!'' interleavedStream
     = 2 * tradeQty ''NQ1!'' (matchTrades interleavedStream) + unclosed (fst (matchState interleavedStream)) ''NQ1!''"
    and "0 < quantity (matchTrades interleavedStream ! 2)"
    by blast+
  with interleaved_totals(1,2,3) show ?thesis by simp
qed

subsection \<open>The calculator: claims C6 and C7\<close>

lemmas calc_eval = calculateTrade_def tradeCommission_def effectiveMultiplier_def getContractSpecs_def
  CONTRACT_SPECS_def DEFAULT_SPECS_def stripExchangePrefix_def isPrefixChar_def isDigit_def
  orElse_def parseMargin_def commNum_def qtyOr_def firstDigits_def mathRound_def
  trade.extend_def priced_trade.fields_def

lemmas order_eval = filledOrder_def matcher_eval calc_eval

lemma calculateTrade_sel:
  "totalCommission (calculateTrade t) = tradeCommission t"
  "netProfit (calculateTrade t) = grossProfit (calculateTrade t) - tradeCommission t"
  "isWin (calculateTrade t) = (0 < netProfit (calculateTrade t))"
  "trade_status (calculateTrade t) = (if 0 < netProfit (calculateTrade t) then ''WIN'' else ''LOSE'')"
  "grossProfit (calculateTrade t) = pointDifference (calculateTrade t) * real_of_int (quantity t) * effectiveMultiplier t"
  "pointDifference (calculateTrade t) =
     (if trade_side t = ''SHORT'' then numOf (entryPrice t) - numOf (exitPrice t)
      else numOf (exitPrice t) - numOf (entryPrice t))"
  "quantity (calculateTrade t) = quantity t"
  by (auto simp: calculateTrade_def Let_def trade.extend_def priced_trade.fields_def orElse_def)

lemma roundTrip_fields:
  "entryPrice roundTripTrade = Some 6970.75"
  "exitPrice roundTripTrade = Some 6976.75"
  "quantity roundTripTrade = 5"
  "trade_side roundTripTrade = ''LONG''"
  "contract roundTripTrade = ''ES1!''"
  by (simp_all add: roundTripTrade_def roundTripOrders_def filledOrder_def matcher_eval calc_eval)

lemma roundTrip_specs:
  "spec_multiplier (getContractSpecs (contract roundTripTrade)) = 50"
  "spec_commission (getContractSpecs (contract roundTripTrade)) = 2.5"
  "effectiveMultiplier roundTripTrade = 50"
  by (simp_all add: roundTripTrade_def roundTripOrders_def filledOrder_def matcher_eval calc_eval)

lemma roundTrip_priced:
  "grossProfit (calculateTrade roundTripTrade) = 1500"
  "totalCommission (calculateTrade roundTripTrade) = 25"
  "netProfit (calculateTrade roundTripTrade) = 1475"
  "trade_status (calculateTrade roundTripTrade) = ''WIN''"
  by (simp_all add: roundTripTrade_def roundTripOrders_def filledOrder_def matcher_eval calc_eval)

text \<open>
  Claim C6. When the margin/leverage correction leaves the registry multiplier in place, the
  point difference is entry minus exit for a \<open>SHORT\<close> trade and exit minus entry otherwise,
  and the gross profit is the point difference times the quantity times the registry
  multiplier. The round trip Buy 5 @ 6970.75, Sell 5 @ 6976.75 on ES (multiplier 50,
  commission 2.5 per side) gives gross 1500, commission 25, net 1475 and status \<open>WIN\<close>.
\<close>

theorem pnl_computation:
  assumes "effectiveMultiplier t = spec_multiplier (getContractSpecs (contract t))"
  shows "pointDifference (calculateTrade t) =
           (if trade_side t = ''SHORT'' then numOf (entryPrice t) - numOf (exitPrice t)
            else numOf (exitPrice t) - numOf (entryPrice t))
       \<and> grossProfit (calculateTrade t) =
           pointDifference (calculateTrade t) * real_of_int (quantity t)
             * spec_multiplier (getContractSpecs (contract t))
       \<and> entryPrice roundTripTrade = Some 6970.75 \<and> exitPrice roundTripTrade = Some 6976.75
       \<and> quantity roundTripTrade = 5 \<and> trade_side roundTripTrade = ''LONG''
       \<and> spec_multiplier (getContractSpecs (contract roundTripTrade)) = 50
       \<and> spec_commission (getContractSpecs (contract roundTripTrade)) = 2.5
       \<and> grossProfit (calculateTrade roundTripTrade) = 1500
       \<and> totalCommission (calculateTrade roundTripTrade) = 25
       \<and> netProfit (calculateTrade roundTripTrade) = 1475
       \<and> trade_status (calculateTrade roundTripTrade) = ''WIN''"
  using assms roundTrip_fields(1-4) roundTrip_specs(1,2) roundTrip_priced
  by (simp only: calculateTrade_sel(5,6))

text \<open>The hypothesis holds for the round trip, whose point difference is 6.\<close>

theorem pnl_computation_witness:
  "effectiveMultiplier roundTripTrade = spec_multiplier (getContractSpecs (contract roundTripTrade))
   \<and> pointDifference (calculateTrade roundTripTrade) = 6
   \<and> grossProfit (calculateTrade roundTripTrade) = 6 * 5 * 50"
proof -
  have h: "effectiveMultiplier roundTripTrade = spec_multiplier (getContractSpecs (contract roundTripTrade))"
    by (simp add: roundTrip_specs)
  from pnl_computation [OF h] roundTrip_fields(1-4) roundTrip_specs(1) h show ?thesis
    by (simp add: numOf_def)
qed

lemma qtyOr_nonzero: "q \<noteq> 0 \<Longrightarrow> qtyOr oq q \<noteq> 0"
  by (simp add: qtyOr_def split: option.splits)

text \<open>
  What the code computes for a trade of non-zero quantity: when the entry order has a
  commission field and the commission of either leg is greater than zero, the entry commission
  times quantity / original entry quantity plus the exit commission times quantity / original
  exit quantity (an original quantity that is absent or zero is replaced by the trade
  quantity, so neither divisor is zero); otherwise the registry commission per side times 2
  times the quantity. A Sell 10 with commission 10 that the matcher closes with Buy 6 and
  Buy 4 (blank commissions) gives two trades of quantities 6 and 4 with commissions 6 and 4,
  which add up to 10.
\<close>

lemma commission_of_code:
  assumes "quantity t \<noteq> 0"
  shows "qtyOr (originalQty (entryOrder t)) (quantity t) \<noteq> 0
       \<and> qtyOr (originalQty (exitOrder t)) (quantity t) \<noteq> 0
       \<and> totalCommission (calculateTrade t) =
           (if commission (entryOrder t) \<noteq> CommUndefined
               \<and> (0 < commNum (commission (entryOrder t)) \<or> 0 < commNum (commission (exitOrder t)))
            then commNum (commission (entryOrder t))
                   * (real_of_int (quantity t) / real_of_int (qtyOr (originalQty (entryOrder t)) (quantity t)))
                 + commNum (commission (exitOrder t))
                   * (real_of_int (quantity t) / real_of_int (qtyOr (originalQty (exitOrder t)) (quantity t)))
            else spec_commission (getContractSpecs (contract t)) * 2 * real_of_int (quantity t))
       \<and> map quantity (matchTrades splitOrders) = [6, 4]
       \<and> map totalCommission (map calculateTrade (matchTrades splitOrders)) = [6, 4]
       \<and> sum_list (map totalCommission (map calculateTrade (matchTrades splitOrders))) = 10"
proof -
  have split: "map quantity (matchTrades splitOrders) = [6, 4]"
    "map totalCommission (map calculateTrade (matchTrades splitOrders)) = [6, 4]"
    by (simp_all add: splitOrders_def order_eval)
  then have "sum_list (map totalCommission (map calculateTrade (matchTrades splitOrders))) = 10"
    by simp
  with split assms show ?thesis
    by (simp add: qtyOr_nonzero calculateTrade_sel(1) tradeCommission_def Let_def)
qed

text \<open>
  Claim C7. A Buy 1 and a Sell 1 that both carry the commission -1.5, a non-zero value, give
  one trade of quantity 1 out of original quantities 1. The stated rule uses the per-order
  values, -1.5 * (1 / 1) + -1.5 * (1 / 1) = -3. The code tests the commissions with
  \<^verbatim>\<open>> 0\<close>, takes both for blank and charges the registry rate, 2.5 * 2 * 1 = 5.
\<close>

theorem negative_commission_ignored:
  "length (matchTrades negativeCommissionOrders) = 1
   \<and> commission (entryOrder negativeCommissionTrade) = CommNum (- 1.5)
   \<and> commission (exitOrder negativeCommissionTrade) = CommNum (- 1.5)
   \<and> quantity negativeCommissionTrade = 1
   \<and> originalQty (entryOrder negativeCommissionTrade) = Some 1
   \<and> originalQty (exitOrder negativeCommissionTrade) = Some 1
   \<and> specCommission negativeCommissionTrade = - 3
   \<and> spec_commission (getContractSpecs (contract negativeCommissionTrade)) = 2.5
   \<and> totalCommission (calculateTrade negativeCommissionTrade) = 5"
  by (simp add: negativeCommissionTrade_def negativeCommissionOrders_def ibkrOrder_def
        specCommission_def matcher_eval calc_eval)

subsection \<open>The summary: claim C8\<close>

lemma foldl_add: "foldl (\<lambda>s t. s + f t) a ts = a + sum_list (map f ts)"
  for a :: real
  by (induction ts arbitrary: a) simp_all

lemma sumNet_sum_list: "sumNet ts = sum_list (map netProfit ts)"
  by (simp add: sumNet_def foldl_add)

lemma sumNet_positive:
  assumes "ts \<noteq> []" and "\<forall>t\<in>set ts. 0 < netProfit t"
  shows "0 < sumNet ts"
proof -
  from assms obtain t rest where ts: "ts = t # rest" by (cases ts) auto
  with assms(2) have "0 \<le> sum_list (map netProfit rest)" by (intro sum_list_nonneg) auto
  with ts assms(2) show ?thesis by (simp add: sumNet_sum_list)
qed

lemma generateSummary_profitFactor:
  "ts \<noteq> [] \<Longrightarrow> profitFactor (generateSummary ts) =
     calculateProfitFactor (filter isWin ts) (filter (\<lambda>t. \<not> isWin t) ts)"
  by (simp add: generateSummary_def Let_def)

text \<open>
  Claim C8. For priced trades (a trade is a win exactly when its net profit is positive): the
  summary of the empty list is all zeros with a null date range, so its profit factor is 0;
  when there is at least one trade and every trade is a win the profit factor is
  \<open>Infinity\<close>; and when the net profits of the losing trades do not add up to zero the profit
  factor is the sum of the net profits of the winning trades over the absolute value of the
  sum of the net profits of the losing trades. The summary is a total function.
\<close>

theorem summary_boundaries:
  assumes "\<forall>t\<in>set ts. isWin t = (0 < netProfit t)"
  shows "generateSummary [] =
           \<lparr> totalTrades = 0, totalProfit = 0, totalGrossProfit = 0, sum_totalCommission = 0,
             winCount = 0, lossCount = 0, winRate = 0, bestTrade = 0, worstTrade = 0,
             averageProfit = 0, averageWin = 0, averageLoss = 0, profitFactor = Finite 0,
             sharpeRatio = 0, maxDrawdown = 0, consecutiveWins = 0, consecutiveLosses = 0,
             dateRange = None \<rparr>
       \<and> (ts \<noteq> [] \<and> (\<forall>t\<in>set ts. isWin t) \<longrightarrow> profitFactor (generateSummary ts) = PosInfinity)
       \<and> (sumNet (filter (\<lambda>t. \<not> isWin t) ts) \<noteq> 0 \<longrightarrow>
            profitFactor (generateSummary ts) =
              Finite (sumNet (filter isWin ts) / \<bar>sumNet (filter (\<lambda>t. \<not> isWin t) ts)\<bar>))"
proof (intro conjI impI)
  show "generateSummary [] =
           \<lparr> totalTrades = 0, totalProfit = 0, totalGrossProfit = 0, sum_totalCommission = 0,
             winCount = 0, lossCount = 0, winRate = 0, bestTrade = 0, worstTrade = 0,
             averageProfit = 0, averageWin = 0, averageLoss = 0, profitFactor = Finite 0,
             sharpeRatio = 0, maxDrawdown = 0, consecutiveWins = 0, consecutiveLosses = 0,
             dateRange = None \<rparr>"
    by (simp add: generateSummary_def getEmptySummary_def)
next
  assume all: "ts \<noteq> [] \<and> (\<forall>t\<in>set ts. isWin t)"
  then have w: "filter isWin ts = ts" and l: "filter (\<lambda>t. \<not> isWin t) ts = []" by simp_all
  from all assms have "0 < sumNet ts" by (intro sumNet_positive) auto
  with all w l show "profitFactor (generateSummary ts) = PosInfinity"
    by (simp add: generateSummary_profitFactor calculateProfitFactor_def sumNet_def)
next
  assume loss: "sumNet (filter (\<lambda>t. \<not> isWin t) ts) \<noteq> 0"
  then have "ts \<noteq> []" by (auto simp: sumNet_def)
  with loss show "profitFactor (generateSummary ts) =
      Finite (sumNet (filter isWin ts) / \<bar>sumNet (filter (\<lambda>t. \<not> isWin t) ts)\<bar>)"
    by (simp add: generateSummary_profitFactor calculateProfitFactor_def Let_def)
qed

lemma priced_isWin: "\<forall>t\<in>set (map calculateTrade ts). isWin t = (0 < netProfit t)"
  by (simp add: calculateTrade_sel(3))

lemma pricedInterleaved_sums:
  "sumNet (filter isWin pricedInterleaved) = 60"
  "sumNet (filter (\<lambda>t. \<not> isWin t) pricedInterleaved) = - 425"
  by code_simp+

lemma pricedRoundTrip_wins:
  "pricedRoundTrip \<noteq> []"
  "filter isWin pricedRoundTrip = pricedRoundTrip"
  by code_simp+

text \<open>
  The interleaved stream has two winning and two losing trades, the round trip a single winning
  trade.
\<close>

theorem summary_boundaries_witness:
  "sumNet (filter (\<lambda>t. \<not> isWin t) pricedInterleaved) \<noteq> 0
   \<and> profitFactor (generateSummary pricedInterleaved) = Finite (60 / 425)
   \<and> pricedRoundTrip \<noteq> []
   \<and> filter isWin pricedRoundTrip = pricedRoundTrip
   \<and> profitFactor (generateSummary pricedRoundTrip) = PosInfinity"
proof -
  have h1: "\<forall>t\<in>set pricedInterleaved. isWin t = (0 < netProfit t)"
    unfolding pricedInterleaved_def by (rule priced_isWin)
  have h2: "\<forall>t\<in>set pricedRoundTrip. isWin t = (0 < netProfit t)"
    unfolding pricedRoundTrip_def by (rule priced_isWin)
  have n: "sumNet (filter (\<lambda>t. \<not> isWin t) pricedInterleaved) \<noteq> 0"
    by (simp add: pricedInterleaved_sums)
  from summary_boundaries [OF h1] n
  have pf: "profitFactor (generateSummary pricedInterleaved) = Finite (60 / 425)"
    by (simp add: pricedInterleaved_sums)
  have "\<forall>t\<in>set pricedRoundTrip. isWin t"
    by (metis filter_id_conv pricedRoundTrip_wins(2))
  with summary_boundaries [OF h2] pricedRoundTrip_wins(1)
  have "profitFactor (generateSummary pricedRoundTrip) = PosInfinity" by blast
  with n pf pricedRoundTrip_wins show ?thesis by simp
qed

subsection \<open>The merge: claim C1\<close>

lemma mergeLoop_Nil [simp]: "mergeLoop g os st [] = st"
  by (simp add: mergeLoop_def)

lemma mergeLoop_Cons [simp]: "mergeLoop g os st (t # ts) = mergeLoop g os (mergeStep g os st t) ts"
  by (simp add: mergeLoop_def)

lemma mergeStep_orderIds_mono: "orderIds (ms_db st) \<subseteq> orderIds (ms_db (mergeStep g os st t))"
  by (auto simp: mergeStep_def Let_def)

lemma mergeLoop_orderIds_mono: "orderIds (ms_db st) \<subseteq> orderIds (ms_db (mergeLoop g os st ts))"
proof (induction ts arbitrary: st)
  case Nil
  show ?case by simp
next
  case (Cons t ts)
  have "orderIds (ms_db st) \<subseteq> orderIds (ms_db (mergeStep g os st t))"
    by (rule mergeStep_orderIds_mono)
  also have "\<dots> \<subseteq> orderIds (ms_db (mergeLoop g os (mergeStep g os st t) ts))"
    by (rule Cons.IH)
  finally show ?case by simp
qed

lemma mergeStep_tracked:
  "\<not> noIds os t \<Longrightarrow> tracked os (orderIds (ms_db (mergeStep g os st t))) t"
  by (cases "extractTradeOrderIds t os") (auto simp: mergeStep_def Let_def noIds_def tracked_def)

lemma tracked_mono: "tracked os A t \<Longrightarrow> A \<subseteq> B \<Longrightarrow> tracked os B t"
  by (auto simp: tracked_def)

lemma mergeLoop_tracked:
  "\<forall>t\<in>set ts. \<not> noIds os t \<longrightarrow> tracked os (orderIds (ms_db (mergeLoop g os st ts))) t"
proof (induction ts arbitrary: st)
  case Nil
  show ?case by simp
next
  case (Cons t ts)
  show ?case
  proof
    fix u assume u: "u \<in> set (t # ts)"
    show "\<not> noIds os u \<longrightarrow> tracked os (orderIds (ms_db (mergeLoop g os st (t # ts)))) u"
    proof
      assume n: "\<not> noIds os u"
      show "tracked os (orderIds (ms_db (mergeLoop g os st (t # ts)))) u"
      proof (cases "u \<in> set ts")
        case True
        with Cons.IH [of "mergeStep g os st t"] n show ?thesis by simp
      next
        case False
        with u have "u = t" by simp
        with n have "tracked os (orderIds (ms_db (mergeStep g os st t))) u"
          by (simp add: mergeStep_tracked)
        then show ?thesis
          using mergeLoop_orderIds_mono [of "mergeStep g os st t" g os ts]
          by (auto intro: tracked_mono)
      qed
    qed
  qed
qed

lemma mergeLoop_counts:
  assumes "\<forall>t\<in>set ts. \<not> noIds os t \<longrightarrow> tracked os (orderIds (ms_db st)) t"
  shows "ms_new (mergeLoop g os st ts) = ms_new st + length (filter (noIds os) ts)
       \<and> ms_dup (mergeLoop g os st ts) = ms_dup st + length (filter (\<lambda>t. \<not> noIds os t) ts)
       \<and> orderIds (ms_db (mergeLoop g os st ts)) = orderIds (ms_db st)"
  using assms
proof (induction ts arbitrary: st)
  case Nil
  show ?case by simp
next
  case (Cons t ts)
  show ?case
  proof (cases "noIds os t")
    case True
    then have step: "ms_new (mergeStep g os st t) = ms_new st + 1"
      "ms_dup (mergeStep g os st t) = ms_dup st"
      "orderIds (ms_db (mergeStep g os st t)) = orderIds (ms_db st)"
      by (simp_all add: mergeStep_def Let_def noIds_def)
    with Cons.prems have "\<forall>u\<in>set ts. \<not> noIds os u \<longrightarrow> tracked os (orderIds (ms_db (mergeStep g os st t))) u"
      by simp
    from Cons.IH [OF this] step True show ?thesis by simp
  next
    case False
    with Cons.prems have "tracked os (orderIds (ms_db st)) t" by simp
    with False have step: "ms_new (mergeStep g os st t) = ms_new st"
      "ms_dup (mergeStep g os st t) = ms_dup st + 1"
      "orderIds (ms_db (mergeStep g os st t)) = orderIds (ms_db st)"
      by (simp_all add: mergeStep_def Let_def noIds_def tracked_def)
    with Cons.prems have "\<forall>u\<in>set ts. \<not> noIds os u \<longrightarrow> tracked os (orderIds (ms_db (mergeStep g os st t))) u"
      by simp
    from Cons.IH [OF this] step False show ?thesis by simp
  qed
qed

lemma merge_unfold:
  "mergeTradesWithDatabase g db ts os =
     (ms_db (mergeLoop g os \<lparr> ms_db = db, ms_new = 0, ms_dup = 0, ms_added = [], ms_calls = 0 \<rparr> ts),
      \<lparr> m_newTrades = ms_new (mergeLoop g os \<lparr> ms_db = db, ms_new = 0, ms_dup = 0, ms_added = [], ms_calls = 0 \<rparr> ts),
        m_duplicates = ms_dup (mergeLoop g os \<lparr> ms_db = db, ms_new = 0, ms_dup = 0, ms_added = [], ms_calls = 0 \<rparr> ts),
        m_totalTrades = length (trades (ms_db (mergeLoop g os \<lparr> ms_db = db, ms_new = 0, ms_dup = 0, ms_added = [], ms_calls = 0 \<rparr> ts))),
        m_addedTrades = ms_added (mergeLoop g os \<lparr> ms_db = db, ms_new = 0, ms_dup = 0, ms_added = [], ms_calls = 0 \<rparr> ts) \<rparr>)"
  by (simp add: mergeTradesWithDatabase_def mergeLoop_def Let_def)

lemma noIdTrades_eval:
  "length noIdTrades = 1"
  "db_id (noIdTrades ! 0) = ''trade__''"
  "extractTradeOrderIds (noIdTrades ! 0) noIdOrders = []"
  by code_simp+

text \<open>
  Claim C1, as stated, fails for trades without a resolvable order identifier: the trade of an
  export without order ids is added by the first merge and added again by the second.
\<close>

theorem merge_not_idempotent_counterexample:
  "extractTradeOrderIds (noIdTrades ! 0) noIdOrders = []
   \<and> m_newTrades (snd (mergeTradesWithDatabase sampleGenId emptyDatabase noIdTrades noIdOrders)) = 1
   \<and> m_newTrades (snd (mergeTradesWithDatabase sampleGenId
         (fst (mergeTradesWithDatabase sampleGenId emptyDatabase noIdTrades noIdOrders))
         noIdTrades noIdOrders)) = 1
   \<and> m_newTrades (snd (mergeTradesWithDatabase sampleGenId
         (fst (mergeTradesWithDatabase sampleGenId emptyDatabase noIdTrades noIdOrders))
         noIdTrades noIdOrders)) \<noteq> 0"
  by code_simp

text \<open>
  The repository's storage test expects two new trades from the first merge of its mock data
  and, from the second, no new trade and two duplicates.
\<close>

lemma mock_merge_twice:
  "m_newTrades (snd (mergeTradesWithDatabase sampleGenId emptyDatabase mockTrades mockOrders)) = 2"
  "m_duplicates (snd (mergeTradesWithDatabase sampleGenId emptyDatabase mockTrades mockOrders)) = 0"
  "m_newTrades (snd (mergeTradesWithDatabase sampleGenId
      (fst (mergeTradesWithDatabase sampleGenId emptyDatabase mockTrades mockOrders))
      mockTrades mockOrders)) = 0"
  "m_duplicates (snd (mergeTradesWithDatabase sampleGenId
      (fst (mergeTradesWithDatabase sampleGenId emptyDatabase mockTrades mockOrders))
      mockTrades mockOrders)) = 2"
  by code_simp+

text \<open>
  Claim C1, amended. For every store, every input and every pair of identifier sources, a second
  merge of the same trades and orders into the store that the first merge returned adds
  exactly the trades that have no resolvable order identifier and counts every other trade as
  a duplicate.
\<close>

theorem merge_second_run:
  "m_newTrades (snd (mergeTradesWithDatabase g2 (fst (mergeTradesWithDatabase g1 db newTrades newOrders))
       newTrades newOrders))
     = length (filter (\<lambda>t. extractTradeOrderIds t newOrders = []) newTrades)
   \<and> m_duplicates (snd (mergeTradesWithDatabase g2 (fst (mergeTradesWithDatabase g1 db newTrades newOrders))
       newTrades newOrders))
     = length (filter (\<lambda>t. extractTradeOrderIds t newOrders \<noteq> []) newTrades)"
proof -
  let ?s0 = "\<lparr> ms_db = db, ms_new = 0, ms_dup = 0, ms_added = [], ms_calls = 0 \<rparr>"
  let ?db1 = "ms_db (mergeLoop g1 newOrders ?s0 newTrades)"
  let ?s1 = "\<lparr> ms_db = ?db1, ms_new = 0, ms_dup = 0, ms_added = [], ms_calls = 0 \<rparr>"
  have "\<forall>t\<in>set newTrades. \<not> noIds newOrders t \<longrightarrow> tracked newOrders (orderIds (ms_db ?s1)) t"
    using mergeLoop_tracked [of newTrades newOrders g1 ?s0] by simp
  from mergeLoop_counts [OF this, of g2]
  show ?thesis by (simp add: merge_unfold noIds_def [abs_def])
qed

subsection \<open>The pull: claim C9\<close>

lemma pullStep_skipped: "skipped st t \<Longrightarrow> pullStep st t = st"
  by (auto simp: skipped_def pullStep_def Let_def)

lemma pullStep_after: "skipped (pullStep st t) t"
  by (auto simp: skipped_def pullStep_def Let_def)

lemma pullStep_below: "below st (pullStep st t)"
  by (auto simp: below_def pullStep_def Let_def)

lemma below_refl: "below st st"
  by (auto simp: below_def)

lemma below_trans: "below a b \<Longrightarrow> below b c \<Longrightarrow> below a c"
  by (auto simp: below_def)

lemma skipped_below: "skipped st t \<Longrightarrow> below st st' \<Longrightarrow> skipped st' t"
  unfolding skipped_def below_def by blast

lemma pullStep_consistent: "consistent st \<Longrightarrow> consistent (pullStep st t)"
  by (auto simp: consistent_def pullStep_def Let_def truthy_def)

lemma foldl_pull_below: "below st (foldl pullStep st ts)"
proof (induction ts arbitrary: st)
  case Nil
  show ?case by (simp add: below_refl)
next
  case (Cons t ts)
  from pullStep_below [of st t] Cons.IH [of "pullStep st t"] show ?case
    by (auto intro: below_trans)
qed

lemma foldl_pull_consistent: "consistent st \<Longrightarrow> consistent (foldl pullStep st ts)"
  by (induction ts arbitrary: st) (auto intro: pullStep_consistent)

lemma foldl_pull_skipped: "\<forall>t\<in>set ts. skipped (foldl pullStep st ts) t"
proof (induction ts arbitrary: st)
  case Nil
  show ?case by simp
next
  case (Cons t ts)
  have "skipped (foldl pullStep (pullStep st t) ts) t"
    using pullStep_after [of st t] foldl_pull_below [of "pullStep st t" ts]
    by (rule skipped_below)
  with Cons.IH [of "pullStep st t"] show ?case by simp
qed

lemma foldl_pull_all_skipped: "\<forall>t\<in>set ts. skipped st t \<Longrightarrow> foldl pullStep st ts = st"
  by (induction ts) (auto simp: pullStep_skipped)

lemma pullInit_consistent: "consistent (pullInit local)"
  by (auto simp: consistent_def pullInit_def truthy_def)

lemma consistent_below_init: "consistent st \<Longrightarrow> below st (pullInit (localTrades st))"
  by (auto simp: consistent_def below_def pullInit_def)

lemma pullStep_cases [case_names skip add]:
  obtains (skip) "skipped st t" "pullStep st t = st"
  | (add) "\<not> skipped st t" "fingerprint t \<notin> localFingerprints st"
      "pullStep st t = st\<lparr> localTrades := localTrades st @ [t],
                   localIds := insert (db_id t) (localIds st),
                   localFingerprints := insert (fingerprint t) (localFingerprints st),
                   localOrderIds := localOrderIds st \<union> set (pullOrderIds t),
                   merged := merged st + 1 \<rparr>"
proof (cases "skipped st t")
  case True
  then show ?thesis by (intro skip) (simp_all add: pullStep_skipped)
next
  case False
  then show ?thesis by (intro add) (auto simp: skipped_def pullStep_def Let_def)
qed

lemma foldl_pull_added:
  assumes "localFingerprints st = fingerprint ` set (localTrades st)"
  shows "\<exists>added. localTrades (foldl pullStep st ts) = localTrades st @ added
           \<and> merged (foldl pullStep st ts) = merged st + length added
           \<and> subseq added ts
           \<and> distinct (map fingerprint added)
           \<and> fingerprint ` set added \<inter> fingerprint ` set (localTrades st) = {}"
  using assms
proof (induction ts arbitrary: st)
  case Nil
  show ?case by simp
next
  case (Cons t ts)
  show ?case
  proof (cases rule: pullStep_cases [of st t])
    case skip
    from Cons.IH [OF Cons.prems] obtain added where
      "localTrades (foldl pullStep st ts) = localTrades st @ added"
      "merged (foldl pullStep st ts) = merged st + length added"
      "subseq added ts" "distinct (map fingerprint added)"
      "fingerprint ` set added \<inter> fingerprint ` set (localTrades st) = {}"
      by blast
    with skip(2) show ?thesis by (intro exI [of _ added]) (simp add: list_emb_Cons)
  next
    case add
    let ?st = "pullStep st t"
    from add(3) Cons.prems have "localFingerprints ?st = fingerprint ` set (localTrades ?st)"
      by simp
    from Cons.IH [OF this] obtain added where a:
      "localTrades (foldl pullStep ?st ts) = localTrades ?st @ added"
      "merged (foldl pullStep ?st ts) = merged ?st + length added"
      "subseq added ts" "distinct (map fingerprint added)"
      "fingerprint ` set added \<inter> fingerprint ` set (localTrades ?st) = {}"
      by blast
    from add(2) Cons.prems have new: "fingerprint t \<notin> fingerprint ` set (localTrades st)" by simp
    from a(5) add(3) have d1: "fingerprint t \<notin> fingerprint ` set added"
      and d2: "fingerprint ` set added \<inter> fingerprint ` set (localTrades st) = {}"
      by auto
    from a(1,2) add(3) have
      "localTrades (foldl pullStep st (t # ts)) = localTrades st @ (t # added)"
      "merged (foldl pullStep st (t # ts)) = merged st + length (t # added)"
      by simp_all
    moreover from a(3) have "subseq (t # added) (t # ts)" by simp
    moreover from a(4) d1 have "distinct (map fingerprint (t # added))" by simp
    moreover from d2 new have "fingerprint ` set (t # added) \<inter> fingerprint ` set (localTrades st) = {}"
      by simp
    ultimately show ?thesis by blast
  qed
qed

lemma consistent_represented:
  assumes "consistent st" and "skipped st t"
  shows "represented (localTrades st) t"
proof -
  from assms(1) have ids: "localIds st - {[]} = set (truthy (map db_id (localTrades st)))"
    and oids: "localOrderIds st = set (concat (map pullOrderIds (localTrades st)))"
    and fps: "localFingerprints st = fingerprint ` set (localTrades st)"
    by (simp_all add: consistent_def)
  have "set (truthy (map db_id (localTrades st))) \<subseteq> db_id ` set (localTrades st)"
    by (auto simp: truthy_def)
  with ids have "db_id t \<noteq> [] \<Longrightarrow> db_id t \<in> localIds st \<Longrightarrow> db_id t \<in> db_id ` set (localTrades st)"
    by blast
  with assms(2) oids fps show ?thesis
    unfolding skipped_def represented_def by blast
qed

lemma pull_duplicate_skipped:
  assumes "fingerprint t \<in> fingerprint ` set (fst (pullTradeDatabase local pre))"
  shows "pullTradeDatabase local (pre @ [t]) = pullTradeDatabase local pre"
proof -
  let ?st = "foldl pullStep (pullInit local) pre"
  have "consistent ?st" by (intro foldl_pull_consistent pullInit_consistent)
  then have "localFingerprints ?st = fingerprint ` set (localTrades ?st)"
    by (simp add: consistent_def)
  with assms have "skipped ?st t" by (simp add: skipped_def pullTradeDatabase_def Let_def)
  then have "pullStep ?st t = ?st" by (rule pullStep_skipped)
  then show ?thesis by (simp add: pullTradeDatabase_def)
qed

lemma twin_fingerprint: "fingerprint remoteTwin = fingerprint localTwin"
  by code_simp

lemma twin_ids:
  "db_id remoteTwin \<noteq> db_id localTwin" "pullOrderIds remoteTwin = []" "pullOrderIds localTwin = []"
  by code_simp+

text \<open>
  Claim C9, as stated, fails for \<^verbatim>\<open>mergeTradesWithDatabase\<close>: a trade without order ids that
  has the fingerprint of a stored trade is not counted as a duplicate but added, and so is
  the stored trade itself when it is merged again.
\<close>

theorem merge_ignores_fingerprint_counterexample:
  "extractTradeOrderIds localTwin [] = [] \<and> extractTradeOrderIds remoteTwin [] = []
   \<and> fingerprint remoteTwin = fingerprint localTwin
   \<and> m_duplicates (snd (mergeTradesWithDatabase sampleGenId (fst twinFirstMerge) [remoteTwin] [])) = 0
   \<and> m_newTrades (snd (mergeTradesWithDatabase sampleGenId (fst twinFirstMerge) [remoteTwin] [])) = 1
   \<and> length (trades (fst (mergeTradesWithDatabase sampleGenId (fst twinFirstMerge) [remoteTwin] []))) = 2
   \<and> m_duplicates (snd (mergeTradesWithDatabase sampleGenId (fst twinFirstMerge) [localTwin] [])) = 0
   \<and> length (trades (fst (mergeTradesWithDatabase sampleGenId (fst twinFirstMerge) [localTwin] []))) = 2"
  by code_simp

text \<open>
  Claim C9, amended. In the remote-sync path, \<^verbatim>\<open>pullTradeDatabase\<close>, for every local store and
  every list of remote trades: the store after the pull is the local store followed by the
  added trades, which are remote trades in the order of the remote list, and the counter is
  their number; the fingerprints (normalized symbol, entry and exit timestamps, entry and exit
  prices rounded to cents) of the added trades differ from one another and from those of all
  local trades; a remote trade that has the fingerprint of a trade held by the store when its
  turn comes (a local trade, or a remote trade added before it) is not added and not counted,
  whether or not it carries order identifiers and whatever stands before it in the remote
  list; every remote trade is held by the store afterwards, by its identifier, by one of its
  order identifiers or by its fingerprint; when every remote trade has the fingerprint of a
  local trade, nothing is merged; and pulling the same remote trades a second time merges
  nothing and leaves the store as it is.
\<close>

theorem pull_fingerprint_dedup:
  "(\<exists>added. pullTradeDatabase local remote = (local @ added, length added)
      \<and> subseq added remote
      \<and> distinct (map fingerprint added)
      \<and> fingerprint ` set added \<inter> fingerprint ` set local = {}
      \<and> (\<forall>t\<in>set remote. represented (local @ added) t))
   \<and> (fingerprint t \<in> fingerprint ` set (fst (pullTradeDatabase local pre)) \<longrightarrow>
      pullTradeDatabase local (pre @ [t]) = pullTradeDatabase local pre)
   \<and> ((\<forall>t\<in>set remote. fingerprint t \<in> fingerprint ` set local) \<longrightarrow>
      pullTradeDatabase local remote = (local, 0))
   \<and> pullTradeDatabase (fst (pullTradeDatabase local remote)) remote
       = (fst (pullTradeDatabase local remote), 0)"
proof (intro conjI impI)
  let ?st = "foldl pullStep (pullInit local) remote"
  have init: "localFingerprints (pullInit local) = fingerprint ` set (localTrades (pullInit local))"
    "localTrades (pullInit local) = local" "merged (pullInit local) = 0"
    by (simp_all add: pullInit_def)
  from foldl_pull_added [OF init(1), of remote] obtain added where a:
    "localTrades ?st = local @ added" "merged ?st = length added"
    "subseq added remote" "distinct (map fingerprint added)"
    "fingerprint ` set added \<inter> fingerprint ` set local = {}"
    unfolding init(2,3) by auto
  have "consistent ?st" by (intro foldl_pull_consistent pullInit_consistent)
  with foldl_pull_skipped [of remote "pullInit local"]
  have "\<forall>t\<in>set remote. represented (localTrades ?st) t"
    by (auto intro: consistent_represented)
  with a show "\<exists>added. pullTradeDatabase local remote = (local @ added, length added)
      \<and> subseq added remote
      \<and> distinct (map fingerprint added)
      \<and> fingerprint ` set added \<inter> fingerprint ` set local = {}
      \<and> (\<forall>t\<in>set remote. represented (local @ added) t)"
    by (intro exI [of _ added]) (simp add: pullTradeDatabase_def)
next
  assume "fingerprint t \<in> fingerprint ` set (fst (pullTradeDatabase local pre))"
  then show "pullTradeDatabase local (pre @ [t]) = pullTradeDatabase local pre"
    by (rule pull_duplicate_skipped)
next
  assume "\<forall>t\<in>set remote. fingerprint t \<in> fingerprint ` set local"
  then have "\<forall>t\<in>set remote. skipped (pullInit local) t"
    by (simp add: skipped_def pullInit_def)
  then have "foldl pullStep (pullInit local) remote = pullInit local"
    by (rule foldl_pull_all_skipped)
  then show "pullTradeDatabase local remote = (local, 0)"
    by (simp add: pullTradeDatabase_def pullInit_def)
next
  let ?st = "foldl pullStep (pullInit local) remote"
  have "consistent ?st" by (intro foldl_pull_consistent pullInit_consistent)
  then have "below ?st (pullInit (localTrades ?st))" by (rule consistent_below_init)
  with foldl_pull_skipped [of remote "pullInit local"]
  have "\<forall>t\<in>set remote. skipped (pullInit (localTrades ?st)) t"
    by (auto intro: skipped_below)
  then have "foldl pullStep (pullInit (localTrades ?st)) remote = pullInit (localTrades ?st)"
    by (rule foldl_pull_all_skipped)
  then show "pullTradeDatabase (fst (pullTradeDatabase local remote)) remote
       = (fst (pullTradeDatabase local remote), 0)"
    by (simp add: pullTradeDatabase_def pullInit_def)
qed

lemma other_eval:
  "pullTradeDatabase [localTwin] [otherTrade, remoteTwin] = ([localTwin, otherTrade], 1)"
  "pullTradeDatabase [localTwin] [otherTrade] = ([localTwin, otherTrade], 1)"
  "fingerprint otherTrade \<noteq> fingerprint localTwin"
  "pullOrderIds otherTrade = []"
  "db_id otherTrade \<noteq> db_id localTwin"
  "db_id otherTrade \<noteq> db_id remoteTwin"
  by code_simp+

lemma twin_after_other:
  "fingerprint remoteTwin \<in> fingerprint ` set (fst (pullTradeDatabase [localTwin] [otherTrade]))"
  by (simp add: other_eval(2) twin_fingerprint)

text \<open>
  The remote twin behind a trade that is merged: the twin is recognised through its
  fingerprint alone and only the other trade is added.
\<close>

theorem pull_fingerprint_dedup_witness:
  "remoteTwin \<in> set [otherTrade, remoteTwin]
   \<and> db_id remoteTwin \<noteq> db_id localTwin \<and> pullOrderIds remoteTwin = []
   \<and> fingerprint remoteTwin \<in> fingerprint ` set [localTwin]
   \<and> (\<exists>added. pullTradeDatabase [localTwin] [otherTrade, remoteTwin] = ([localTwin] @ added, length added)
         \<and> remoteTwin \<notin> set added
         \<and> represented ([localTwin] @ added) remoteTwin)
   \<and> fingerprint remoteTwin \<in> fingerprint ` set (fst (pullTradeDatabase [localTwin] [otherTrade]))
   \<and> pullTradeDatabase [localTwin] ([otherTrade] @ [remoteTwin]) = pullTradeDatabase [localTwin] [otherTrade]
   \<and> pullTradeDatabase [localTwin] [otherTrade, remoteTwin] = ([localTwin, otherTrade], 1)
   \<and> pullTradeDatabase [localTwin] [remoteTwin] = ([localTwin], 0)
   \<and> pullTradeDatabase (fst (pullTradeDatabase [localTwin] [otherTrade, remoteTwin])) [otherTrade, remoteTwin]
        = ([localTwin, otherTrade], 0)"
proof -
  note inst = pull_fingerprint_dedup [of "[localTwin]" "[otherTrade, remoteTwin]"]
  from inst obtain added where a:
    "pullTradeDatabase [localTwin] [otherTrade, remoteTwin] = ([localTwin] @ added, length added)"
    "fingerprint ` set added \<inter> fingerprint ` set [localTwin] = {}"
    "\<forall>t\<in>set [otherTrade, remoteTwin]. represented ([localTwin] @ added) t"
    by blast
  have m: "remoteTwin \<in> set [otherTrade, remoteTwin]" by simp
  have fp: "fingerprint remoteTwin \<in> fingerprint ` set [localTwin]" by (simp add: twin_fingerprint)
  with a(2) have n: "remoteTwin \<notin> set added" by blast
  from a(3) m have r: "represented ([localTwin] @ added) remoteTwin" by (rule bspec)
  have h: "\<forall>t\<in>set [remoteTwin]. fingerprint t \<in> fingerprint ` set [localTwin]"
    by (simp add: twin_fingerprint)
  from pull_fingerprint_dedup [of "[localTwin]" "[remoteTwin]"] h
  have one: "pullTradeDatabase [localTwin] [remoteTwin] = ([localTwin], 0)" by blast
  from pull_fingerprint_dedup [of "[localTwin]" _ remoteTwin "[otherTrade]"] twin_after_other
  have turn: "pullTradeDatabase [localTwin] ([otherTrade] @ [remoteTwin]) = pullTradeDatabase [localTwin] [otherTrade]"
    by blast
  from inst have again:
    "pullTradeDatabase (fst (pullTradeDatabase [localTwin] [otherTrade, remoteTwin])) [otherTrade, remoteTwin]
        = (fst (pullTradeDatabase [localTwin] [otherTrade, remoteTwin]), 0)" by blast
  from a(1) n r have ex: "\<exists>added. pullTradeDatabase [localTwin] [otherTrade, remoteTwin] = ([localTwin] @ added, length added)
         \<and> remoteTwin \<notin> set added
         \<and> represented ([localTwin] @ added) remoteTwin" by blast
  from again have again': "pullTradeDatabase (fst (pullTradeDatabase [localTwin] [otherTrade, remoteTwin]))
      [otherTrade, remoteTwin] = ([localTwin, otherTrade], 0)"
    by (simp add: other_eval(1))
  from m twin_ids(1,2) fp ex twin_after_other turn other_eval(1) one again' show ?thesis
    by blast
qed

end
